theory Spec2Isabelle
  imports Complex_Main "HOL-Library.Sublist"
begin

section \<open>JavaScript strings, values and built-in functions\<close>

text \<open>
  A JavaScript string is a sequence of UTF-16 code units; a code unit is modelled by its
  number. Literals of the source are written \<open>js ''...''\<close>.
\<close>

type_synonym jschar = nat
type_synonym jsstring = "jschar list"

definition js :: "string \<Rightarrow> jsstring" where
  "js s = map of_char s"

definition LF :: jschar where "LF = 0x0A"
definition CR :: jschar where "CR = 0x0D"
definition COMMA :: jschar where "COMMA = 0x2C"
definition QUOTE :: jschar where "QUOTE = 0x22"
definition DOT :: jschar where "DOT = 0x2E"
definition MINUS :: jschar where "MINUS = 0x2D"
definition PLUS :: jschar where "PLUS = 0x2B"

text \<open>
  The characters removed by \<open>String.prototype.trim\<close> (and skipped by \<open>parseFloat\<close>):
  WhiteSpace (TAB, VT, FF, ZWNBSP and the Unicode space separators) and LineTerminator
  (LF, CR, LS, PS).
\<close>

definition is_ws :: "jschar \<Rightarrow> bool" where
  "is_ws c \<longleftrightarrow>
     c = 0x09 \<or> c = 0x0A \<or> c = 0x0B \<or> c = 0x0C \<or> c = 0x0D \<or> c = 0x20 \<or> c = 0xA0 \<or>
     c = 0x1680 \<or> (0x2000 \<le> c \<and> c \<le> 0x200A) \<or> c = 0x2028 \<or> c = 0x2029 \<or>
     c = 0x202F \<or> c = 0x205F \<or> c = 0x3000 \<or> c = 0xFEFF"

definition trim :: "jsstring \<Rightarrow> jsstring" where
  "trim s = rev (dropWhile is_ws (rev (dropWhile is_ws s)))"

definition is_digit :: "jschar \<Rightarrow> bool" where
  "is_digit c \<longleftrightarrow> 0x30 \<le> c \<and> c \<le> 0x39"

text \<open>\<open>String(n)\<close> for a non-negative integer, as a template literal prints a row number.\<close>

fun show_nat :: "nat \<Rightarrow> jsstring" where
  "show_nat n = (if n < 10 then [0x30 + n] else show_nat (n div 10) @ [0x30 + n mod 10])"

text \<open>\<open>Array.prototype.join\<close> on an array of strings.\<close>

fun join :: "jsstring \<Rightarrow> jsstring list \<Rightarrow> jsstring" where
  "join sep [] = []"
| "join sep [x] = x"
| "join sep (x # y # ys) = x @ sep @ join sep (y # ys)"

text \<open>
  \<open>String.prototype.split\<close> with a separator that matches exactly one character: the
  predicate sees the character and the rest of the string behind it (what a lookahead
  of a regular expression sees). The result is never empty; the empty string gives one
  empty piece.
\<close>

fun cons_hd :: "jschar \<Rightarrow> jsstring list \<Rightarrow> jsstring list" where
  "cons_hd c [] = [[c]]"
| "cons_hd c (f # fs) = (c # f) # fs"

fun split_where :: "(jschar \<Rightarrow> jsstring \<Rightarrow> bool) \<Rightarrow> jsstring \<Rightarrow> jsstring list" where
  "split_where P [] = [[]]"
| "split_where P (c # cs) =
     (if P c cs then [] # split_where P cs else cons_hd c (split_where P cs))"

definition split_char :: "jschar \<Rightarrow> jsstring \<Rightarrow> jsstring list" where
  "split_char sep = split_where (\<lambda>c rest. c = sep)"

text \<open>
  \<open>row.split(/,(?=(?:(?:[^"]*"){2})*[^"]*$)/)\<close>: the separator is a comma whose lookahead
  matches, and the lookahead matches exactly when the rest of the string up to its end
  holds an even number of double quotes.
\<close>

definition split_regex :: "jsstring \<Rightarrow> jsstring list" where
  "split_regex = split_where (\<lambda>c rest. c = COMMA \<and> even (count_list rest QUOTE))"

text \<open>\<open>text.replace(/\r\n/g, '\n')\<close>\<close>

fun replace_crlf :: "jsstring \<Rightarrow> jsstring" where
  "replace_crlf (x # y # xs) =
     (if x = CR \<and> y = LF then LF # replace_crlf xs else x # replace_crlf (y # xs))"
| "replace_crlf xs = xs"

text \<open>\<open>val.replace(/^"|"$/g, '')\<close>: one double quote at the start, then one at the end of
  what is left.\<close>

definition strip_quotes :: "jsstring \<Rightarrow> jsstring" where
  "strip_quotes s =
     (let s1 = (if s \<noteq> [] \<and> hd s = QUOTE then tl s else s)
      in if s1 \<noteq> [] \<and> last s1 = QUOTE then butlast s1 else s1)"

text \<open>\<open>cell.replace(/[^0-9.-]+/g, "")\<close>: only digits, dots and minus signs stay.\<close>

definition is_price_char :: "jschar \<Rightarrow> bool" where
  "is_price_char c \<longleftrightarrow> is_digit c \<or> c = DOT \<or> c = MINUS"

definition strip_price :: "jsstring \<Rightarrow> jsstring" where
  "strip_price s = filter is_price_char s"

subsection \<open>Numbers and \<open>parseFloat\<close>\<close>

text \<open>
  A Number is NaN, an infinity, or \<open>Val r\<close>: the finite IEEE double nearest to the
  mathematical value \<open>r\<close> of a decimal literal. Which double that is is not modelled, so
  two Numbers read from the same decimal are equal, and \<open>-0\<close> is \<open>Val 0\<close>. What is modelled
  is the overflow: a mathematical value of magnitude \<open>2^1024 - 2^970\<close> or more (half an
  ulp above the largest double, where the tie goes to \<open>2^1024\<close>) rounds to an infinity.
\<close>

datatype jsnumber = NaN | PosInf | NegInf | Val rat

definition to_number :: "rat \<Rightarrow> jsnumber" where
  "to_number r =
     (if 2 ^ 1024 - 2 ^ 970 \<le> r then PosInf
      else if r \<le> - (2 ^ 1024 - 2 ^ 970) then NegInf
      else Val r)"

definition isNaN :: "jsnumber \<Rightarrow> bool" where
  "isNaN n \<longleftrightarrow> n = NaN"

definition digits_val :: "jsstring \<Rightarrow> nat" where
  "digits_val ds = foldl (\<lambda>a c. 10 * a + (c - 0x30)) 0 ds"

definition pow10 :: "int \<Rightarrow> rat" where
  "pow10 e = (if 0 \<le> e then 10 ^ nat e else 1 / 10 ^ nat (- e))"

text \<open>ExponentPart: \<open>e\<close> or \<open>E\<close>, an optional sign, and at least one digit; without a digit
  there is no exponent part, which is the exponent 0.\<close>

definition scan_exponent :: "jsstring \<Rightarrow> int" where
  "scan_exponent s =
     (case s of
        [] \<Rightarrow> 0
      | c # r \<Rightarrow>
          if c = 0x65 \<or> c = 0x45 then
            (case r of
               [] \<Rightarrow> 0
             | d # r' \<Rightarrow>
                 if d = MINUS then - int (digits_val (takeWhile is_digit r'))
                 else if d = PLUS then int (digits_val (takeWhile is_digit r'))
                 else int (digits_val (takeWhile is_digit r)))
          else 0)"

text \<open>The longest prefix that is a StrUnsignedDecimalLiteral other than \<open>Infinity\<close>
  (digits with an optional fraction, or a dot with digits, then an optional exponent),
  as its mathematical value; \<open>None\<close> when no prefix is one.\<close>

definition scan_unsigned :: "jsstring \<Rightarrow> rat option" where
  "scan_unsigned u =
     (let ip = takeWhile is_digit u; r1 = dropWhile is_digit u
      in case r1 of
           [] \<Rightarrow> if ip = [] then None else Some (of_nat (digits_val ip))
         | c # r \<Rightarrow>
             if c = DOT then
               (let fp = takeWhile is_digit r; r2 = dropWhile is_digit r
                in if ip = [] \<and> fp = [] then None
                   else Some ((of_nat (digits_val ip) + of_nat (digits_val fp) / 10 ^ length fp)
                              * pow10 (scan_exponent r2)))
             else if ip = [] then None
             else Some (of_nat (digits_val ip) * pow10 (scan_exponent r1)))"

definition parseFloat :: "jsstring \<Rightarrow> jsnumber" where
  "parseFloat s =
     (let t = dropWhile is_ws s;
          neg = (t \<noteq> [] \<and> hd t = MINUS);
          u = (if t \<noteq> [] \<and> (hd t = MINUS \<or> hd t = PLUS) then tl t else t)
      in if prefix (js ''Infinity'') u then (if neg then NegInf else PosInf)
         else case scan_unsigned u of
                None \<Rightarrow> NaN
              | Some m \<Rightarrow> to_number (if neg then - m else m))"

subsection \<open>Objects used as dictionaries\<close>

text \<open>
  A row is an object literal \<open>{}\<close> filled by assignments \<open>obj[header] = cell\<close>: its own
  properties are a map from header to cell. Reading \<open>row[key]\<close> gives the own property,
  else what \<open>Object.prototype\<close> has under that name (an object or a function, never a
  string), else \<open>undefined\<close>. Assigning a string to \<open>__proto__\<close> runs the setter of
  \<open>Object.prototype\<close>, which ignores a value that is neither an object nor null.
\<close>

datatype jsval = Undefined | Str jsstring | Inherited

type_synonym row = "jsstring \<rightharpoonup> jsstring"

definition object_prototype_keys :: "jsstring list" where
  "object_prototype_keys =
     [js ''constructor'', js ''__defineGetter__'', js ''__defineSetter__'',
      js ''hasOwnProperty'', js ''__lookupGetter__'', js ''__lookupSetter__'',
      js ''isPrototypeOf'', js ''propertyIsEnumerable'', js ''toString'', js ''valueOf'',
      js ''__proto__'', js ''toLocaleString'']"

definition get_prop :: "row \<Rightarrow> jsstring \<Rightarrow> jsval" where
  "get_prop obj k =
     (case obj k of
        Some v \<Rightarrow> Str v
      | None \<Rightarrow> if k \<in> set object_prototype_keys then Inherited else Undefined)"

definition set_prop :: "row \<Rightarrow> jsstring \<Rightarrow> jsstring \<Rightarrow> row" where
  "set_prop obj k v = (if k = js ''__proto__'' then obj else obj(k \<mapsto> v))"

definition truthy :: "jsval \<Rightarrow> bool" where
  "truthy v \<longleftrightarrow> v \<noteq> Undefined \<and> v \<noteq> Str []"

section \<open>The CSV parser (\<open>parseCsv\<close>)\<close>

datatype jserror = Error jsstring | TypeError

text \<open>\<open>headers.reduce((obj, header, index) => { obj[header] = values[index] || ''; ... }, {})\<close>\<close>

fun build_row :: "row \<Rightarrow> nat \<Rightarrow> jsstring list \<Rightarrow> jsstring list \<Rightarrow> row" where
  "build_row obj index [] vals = obj"
| "build_row obj index (header # hs) vals =
     build_row (set_prop obj header (if index < length vals then vals ! index else []))
       (Suc index) hs vals"

definition csv_rows :: "jsstring \<Rightarrow> jsstring list" where
  "csv_rows text =
     filter (\<lambda>row. row \<noteq> []) (map trim (split_char LF (replace_crlf text)))"

definition row_values :: "jsstring \<Rightarrow> jsstring list" where
  "row_values row = map (\<lambda>val. strip_quotes (trim val)) (split_regex row)"

definition parseCsv :: "jsstring \<Rightarrow> jserror + (jsstring list \<times> row list)" where
  "parseCsv text =
     (let rows = csv_rows text
      in if length rows < 2 then
           Inl (Error (js ''CSV file must contain a header row and at least one data row.''))
         else
           (let headerRow = hd rows;
                headers = map trim (split_char COMMA headerRow);
                data = map (\<lambda>row. build_row Map.empty 0 headers (row_values row)) (tl rows)
            in Inr (headers, data)))"

section \<open>The field mapping\<close>

record FieldMapping =
  m_productName :: jsstring
  m_currentPrice :: jsstring
  m_userProductUrl :: jsstring
  m_competitorUrls :: "jsstring list"

definition handleCompetitorHeaderToggle :: "jsstring \<Rightarrow> FieldMapping \<Rightarrow> FieldMapping" where
  "handleCompetitorHeaderToggle header prev =
     prev\<lparr>m_competitorUrls :=
       (if header \<in> set (m_competitorUrls prev)
        then filter (\<lambda>h. h \<noteq> header) (m_competitorUrls prev)
        else m_competitorUrls prev @ [header])\<rparr>"

section \<open>Row normalization and submission (\<open>handleSubmit\<close>)\<close>

text \<open>The fields of a product are typed \<open>string\<close> in the source; the two that are read
  from a row without a string method being called on them hold whatever the read gave.\<close>

record CsvProduct =
  productName :: jsstring
  currentPrice :: jsnumber
  userProductUrl :: jsval
  competitorUrls :: "jsval list"

record Acc =
  validProducts :: "CsvProduct list"
  errors :: "jsstring list"

text \<open>The two row errors: \<open>`Row ${rowNum}: Price is missing.`\<close> and
  \<open>`Row ${rowNum}: Invalid price value "${row[fieldMapping.currentPrice]}".`\<close>\<close>

definition price_missing_message :: "nat \<Rightarrow> jsstring" where
  "price_missing_message rowNum = js ''Row '' @ show_nat rowNum @ js '': Price is missing.''"

definition invalid_price_message :: "nat \<Rightarrow> jsstring \<Rightarrow> jsstring" where
  "invalid_price_message rowNum cell =
     js ''Row '' @ show_nat rowNum @ js '': Invalid price value \"'' @ cell @ js ''\".''"

text \<open>
  The callback of \<open>csvData.reduce\<close>. Calling \<open>trim\<close> or \<open>replace\<close> on a value that is not a
  string throws a TypeError, which leaves the whole reduction.
\<close>

definition row_step :: "FieldMapping \<Rightarrow> Acc \<Rightarrow> row \<Rightarrow> nat \<Rightarrow> jserror + Acc" where
  "row_step fm acc row index =
     (let rowNum = index + 2
      in case get_prop row (m_productName fm) of
           Undefined \<Rightarrow> Inr acc
         | Inherited \<Rightarrow> Inl TypeError
         | Str name \<Rightarrow>
             if name = [] \<or> trim name = [] then Inr acc
             else
               (case get_prop row (m_currentPrice fm) of
                  Inherited \<Rightarrow> Inl TypeError
                | cell \<Rightarrow>
                   (let cellString = (case cell of Str s \<Rightarrow> s | _ \<Rightarrow> []);
                        priceString = strip_price cellString
                    in if priceString = [] then
                         Inr (acc\<lparr>errors := errors acc @ [price_missing_message rowNum]\<rparr>)
                       else
                         (let price = parseFloat priceString
                          in if isNaN price then
                               Inr (acc\<lparr>errors := errors acc @
                                 [invalid_price_message rowNum cellString]\<rparr>)
                             else
                               (let urls = filter truthy
                                             (map (get_prop row) (m_competitorUrls fm))
                                in Inr (acc\<lparr>validProducts := validProducts acc @
                                     [\<lparr>productName = name,
                                       currentPrice = price,
                                       userProductUrl =
                                         (let u = get_prop row (m_userProductUrl fm)
                                          in if truthy u then u else Str []),
                                       competitorUrls = urls\<rparr>]\<rparr>))))))"

fun reduce_rows :: "FieldMapping \<Rightarrow> Acc \<Rightarrow> nat \<Rightarrow> row list \<Rightarrow> jserror + Acc" where
  "reduce_rows fm acc index [] = Inr acc"
| "reduce_rows fm acc index (row # rows) =
     (case row_step fm acc row index of
        Inl e \<Rightarrow> Inl e
      | Inr acc' \<Rightarrow> reduce_rows fm acc' (Suc index) rows)"

datatype input_mode = UrlMode | CsvMode

text \<open>The state of the form that \<open>handleSubmit\<close> reads. Of the selected file only its
  presence matters; \<open>csvError\<close> is the message shown, \<open>None\<close> for \<open>null\<close>.\<close>

datatype message = Text jsstring | TypeErrorMessage

record FormState =
  isLoading :: bool
  inputMode :: input_mode
  st_userProductUrl :: jsstring
  st_competitorUrls :: "jsstring list"
  csvFile :: bool
  csvError :: "message option"
  csvData :: "row list"
  fieldMapping :: FieldMapping

datatype request =
  UrlRequest jsstring "jsstring list"
| CsvRequest "CsvProduct list"

text \<open>What a submission does: the message shown afterwards, and the argument of
  \<open>onAnalyze\<close> if it was called.\<close>

record Outcome =
  shown :: "message option"
  dispatched :: "request option"

definition handleSubmit :: "FormState \<Rightarrow> Outcome" where
  "handleSubmit st =
     (if isLoading st then \<lparr>shown = csvError st, dispatched = None\<rparr>
      else case inputMode st of
        UrlMode \<Rightarrow>
          (let nonEmptyCompetitors = filter (\<lambda>url. trim url \<noteq> []) (st_competitorUrls st)
           in if trim (st_userProductUrl st) \<noteq> [] \<and> nonEmptyCompetitors \<noteq> [] then
                \<lparr>shown = csvError st,
                 dispatched = Some (UrlRequest (st_userProductUrl st) nonEmptyCompetitors)\<rparr>
              else \<lparr>shown = csvError st, dispatched = None\<rparr>)
      | CsvMode \<Rightarrow>
          if \<not> csvFile st then
            \<lparr>shown = Some (Text (js ''Please select a CSV file.'')), dispatched = None\<rparr>
          else if m_productName (fieldMapping st) = [] \<or> m_currentPrice (fieldMapping st) = []
          then
            \<lparr>shown = Some (Text
               (js ''You must map columns for 'Product Name' and 'Current Price'.'')),
             dispatched = None\<rparr>
          else
            (case reduce_rows (fieldMapping st) \<lparr>validProducts = [], errors = []\<rparr> 0
                    (csvData st) of
               Inl e \<Rightarrow>
                 \<lparr>shown = Some (case e of Error m \<Rightarrow> Text m | TypeError \<Rightarrow> TypeErrorMessage),
                  dispatched = None\<rparr>
             | Inr acc \<Rightarrow>
                 if validProducts acc = [] then
                   \<lparr>shown = Some (Text (js ''Analysis failed. '' @
                      (if errors acc \<noteq> [] then join (js '' '') (errors acc)
                       else js ''The CSV contains no rows that could be analyzed.''))),
                    dispatched = None\<rparr>
                 else
                   \<lparr>shown =
                      (if errors acc \<noteq> [] then
                         Some (Text (js ''Warning: Skipped '' @ show_nat (length (errors acc))
                           @ js '' invalid rows. Reasons: '' @ join (js '' '') (errors acc)))
                       else None),
                    dispatched = Some (CsvRequest (validProducts acc))\<rparr>))"

section \<open>Definitions that follow the specification's words\<close>

text \<open>
  The specification describes the split of a data line as a scan that is either inside
  or outside a pair of double quotes and separates fields at the commas it meets
  outside. \<open>spec_split_fields\<close> is that scan, to be compared with \<open>split_regex\<close>.
\<close>

fun spec_split_from :: "bool \<Rightarrow> jsstring \<Rightarrow> jsstring list" where
  "spec_split_from inq [] = [[]]"
| "spec_split_from inq (c # cs) =
     (if c = QUOTE then cons_hd c (spec_split_from (\<not> inq) cs)
      else if c = COMMA \<and> \<not> inq then [] # spec_split_from inq cs
      else cons_hd c (spec_split_from inq cs))"

definition spec_split_fields :: "jsstring \<Rightarrow> jsstring list" where
  "spec_split_fields = spec_split_from False"

text \<open>The first data row of the sample file that \<open>downloadSampleCsv\<close> writes.\<close>

definition sample_row :: jsstring where
  "sample_row = js ''\"Pro Camera X1, with stand\",499.99,https://yourstore.com/pro-camera,https://competitorA.com/camera-x1,https://competitorB.com/pro-cam-x1''"

text \<open>
  The numeric prefix of a stripped price. A numeric literal over the characters that a
  stripped price is made of is an optional minus sign followed by digits with an
  optional dot and further digits, or by a dot and digits; its value is the decimal it
  writes. The longest numeric prefix is found by trying the whole string and then ever
  shorter prefixes.
\<close>

definition is_unsigned_literal :: "jsstring \<Rightarrow> bool" where
  "is_unsigned_literal b =
     (let ip = takeWhile is_digit b; r = dropWhile is_digit b
      in if r = [] then ip \<noteq> []
         else hd r = DOT \<and> list_all is_digit (tl r) \<and> (ip \<noteq> [] \<or> tl r \<noteq> []))"

definition is_numeric_literal :: "jsstring \<Rightarrow> bool" where
  "is_numeric_literal p =
     is_unsigned_literal (if p \<noteq> [] \<and> hd p = MINUS then tl p else p)"

definition literal_value :: "jsstring \<Rightarrow> rat" where
  "literal_value p =
     (let neg = (p \<noteq> [] \<and> hd p = MINUS);
          b = (if neg then tl p else p);
          ip = takeWhile is_digit b;
          fp = tl (dropWhile is_digit b);
          m = of_nat (digits_val ip) + of_nat (digits_val fp) / 10 ^ length fp
      in if neg then - m else m)"

function longest_numeric_prefix :: "jsstring \<Rightarrow> jsstring option" where
  "longest_numeric_prefix s =
     (if is_numeric_literal s then Some s
      else if s = [] then None
      else longest_numeric_prefix (butlast s))"
  by pat_completeness auto
termination
  by (relation "measure length") auto

text \<open>The same prefix, found the way the scanner of \<open>parseFloat\<close> walks the string.\<close>

definition numeric_prefix :: "jsstring \<Rightarrow> jsstring option" where
  "numeric_prefix s =
     (let neg = (s \<noteq> [] \<and> hd s = MINUS);
          sg = (if neg then [MINUS] else []);
          u = (if neg then tl s else s);
          ip = takeWhile is_digit u;
          r1 = dropWhile is_digit u
      in if r1 \<noteq> [] \<and> hd r1 = DOT then
           (let fp = takeWhile is_digit (tl r1)
            in if ip = [] \<and> fp = [] then None else Some (sg @ ip @ DOT # fp))
         else if ip = [] then None else Some (sg @ ip))"

text \<open>Rows and a mapping for the two-column file \<open>productName,currentPrice\<close>.\<close>

definition two_column_row :: "jsstring \<Rightarrow> jsstring \<Rightarrow> row" where
  "two_column_row name price =
     build_row Map.empty 0 [js ''productName'', js ''currentPrice''] [name, price]"

definition two_column_mapping :: FieldMapping where
  "two_column_mapping =
     \<lparr>m_productName = js ''productName'', m_currentPrice = js ''currentPrice'',
      m_userProductUrl = [], m_competitorUrls = []\<rparr>"

text \<open>A price cell of 310 digits: 1 followed by 309 zeros.\<close>

definition huge_price :: jsstring where
  "huge_price = 0x31 # replicate 309 0x30"

text \<open>The state of the form in CSV mode with a file selected and no analysis running.\<close>

definition csv_state :: "row list \<Rightarrow> FieldMapping \<Rightarrow> FormState" where
  "csv_state data fm =
     \<lparr>isLoading = False, inputMode = CsvMode, st_userProductUrl = [], st_competitorUrls = [],
      csvFile = True, csvError = None, csvData = data, fieldMapping = fm\<rparr>"

text \<open>
  The competitor URLs as the specification words them: the non-empty cells of the
  selected columns, taken in the order of the headers of the file.
\<close>

definition spec_competitor_urls :: "jsstring list \<Rightarrow> FieldMapping \<Rightarrow> row \<Rightarrow> jsval list" where
  "spec_competitor_urls headers fm row =
     filter truthy
       (map (get_prop row) (filter (\<lambda>h. h \<in> set (m_competitorUrls fm)) headers))"

text \<open>A file with two competitor columns, its header list and its single row.\<close>

definition competitor_headers :: "jsstring list" where
  "competitor_headers =
     [js ''productName'', js ''currentPrice'', js ''competitorUrl_1'', js ''competitorUrl_2'']"

definition competitor_row :: row where
  "competitor_row = build_row Map.empty 0 competitor_headers
     [js ''Widget'', js ''5'', js ''https://a.example'', js ''https://b.example'']"

definition competitor_csv :: jsstring where
  "competitor_csv =
     js ''productName,currentPrice,competitorUrl_1,competitorUrl_2'' @ LF #
     js ''Widget,5,https://a.example,https://b.example''"

section \<open>Evaluation rules and basic facts\<close>

lemma js_simps: "js [] = []" "js (c # cs) = of_char c # js cs"
  by (simp_all add: js_def)

lemma js_eq_iff [simp]: "js a = js b \<longleftrightarrow> a = b"
proof -
  have "inj (of_char :: char \<Rightarrow> nat)" by (rule injI) simp
  then show ?thesis unfolding js_def by (rule inj_map_eq_map)
qed

lemmas char_defs = LF_def CR_def COMMA_def QUOTE_def DOT_def MINUS_def PLUS_def

lemma split_char_simps:
  "split_char sep [] = [[]]"
  "split_char sep (c # cs) =
     (if c = sep then [] # split_char sep cs else cons_hd c (split_char sep cs))"
  by (simp_all add: split_char_def)

lemma split_regex_simps:
  "split_regex [] = [[]]"
  "split_regex (c # cs) =
     (if c = COMMA \<and> even (count_list cs QUOTE) then [] # split_regex cs
      else cons_hd c (split_regex cs))"
  by (simp_all add: split_regex_def)

lemma split_where_nonempty: "split_where P s \<noteq> []"
  by (cases s) (auto, metis cons_hd.elims list.distinct(1))

lemma cons_hd_append: "fs \<noteq> [] \<Longrightarrow> cons_hd c (fs @ gs) = cons_hd c fs @ gs"
  by (cases fs) auto

lemma split_char_append:
  "split_char c (xs @ c # ys) = split_char c xs @ split_char c ys"
  unfolding split_char_def
  by (induction xs) (auto simp: cons_hd_append split_where_nonempty)

lemma split_char_notin: "c \<notin> set xs \<Longrightarrow> split_char c xs = [xs]"
  unfolding split_char_def by (induction xs) auto

lemma cons_hd_set: "p \<in> set (cons_hd c fs) \<Longrightarrow> set p \<subseteq> insert c (\<Union> (set ` set fs))"
  by (cases fs) auto

lemma split_where_pieces: "p \<in> set (split_where P xs) \<Longrightarrow> set p \<subseteq> set xs"
proof (induction xs arbitrary: p)
  case Nil
  then show ?case by simp
next
  case (Cons x xs)
  show ?case
  proof (cases "P x xs")
    case True
    with Cons show ?thesis by auto
  next
    case False
    with Cons.prems have "set p \<subseteq> insert x (\<Union> (set ` set (split_where P xs)))"
      by (auto dest: cons_hd_set)
    with Cons.IH show ?thesis by auto
  qed
qed

lemma trim_blank: "\<forall>c \<in> set s. is_ws c \<Longrightarrow> trim s = []"
proof -
  assume a: "\<forall>c \<in> set s. is_ws c"
  then have d: "dropWhile is_ws s = []" by simp
  show ?thesis by (simp only: trim_def d) simp
qed

lemma replace_crlf_subset: "set (replace_crlf xs) \<subseteq> set xs"
  by (induction xs rule: replace_crlf.induct) auto

lemma replace_crlf_before_lf:
  "LF \<notin> set xs \<Longrightarrow>
   \<exists>xs'. replace_crlf (xs @ LF # ys) = xs' @ LF # replace_crlf ys \<and> LF \<notin> set xs'"
proof (induction xs)
  case Nil
  have "replace_crlf (LF # ys) = LF # replace_crlf ys"
    by (cases ys) (simp_all add: char_defs)
  then show ?case by (intro exI[of _ "[]"]) simp
next
  case (Cons x xs)
  then obtain xs' where
    xs': "replace_crlf (xs @ LF # ys) = xs' @ LF # replace_crlf ys" "LF \<notin> set xs'"
    by auto
  obtain z zs where z: "xs @ LF # ys = z # zs" by (cases "xs @ LF # ys") auto
  show ?case
  proof (cases "x = CR \<and> z = LF")
    case True
    with z Cons.prems have "xs = []" by (cases xs) auto
    with z True have "replace_crlf ((x # xs) @ LF # ys) = [] @ LF # replace_crlf ys"
      by simp
    then show ?thesis by (intro exI[of _ "[]"]) simp
  next
    case False
    then have "replace_crlf ((x # xs) @ LF # ys) = x # replace_crlf (xs @ LF # ys)"
      using z by auto
    with xs' Cons.prems show ?thesis by (intro exI[of _ "x # xs'"]) simp
  qed
qed

text \<open>A header line followed only by blank lines leaves at most one row.\<close>

lemma csv_rows_header_only:
  assumes "LF \<notin> set h" and "\<forall>c \<in> set ws. is_ws c"
  shows "length (csv_rows (h @ LF # ws)) \<le> 1"
proof -
  obtain h' where h': "replace_crlf (h @ LF # ws) = h' @ LF # replace_crlf ws" "LF \<notin> set h'"
    using replace_crlf_before_lf[OF assms(1)] by blast
  have blank: "\<forall>p \<in> set (split_char LF (replace_crlf ws)). trim p = []"
  proof
    fix p assume "p \<in> set (split_char LF (replace_crlf ws))"
    then have "set p \<subseteq> set ws"
      using split_where_pieces replace_crlf_subset unfolding split_char_def by blast
    with assms(2) show "trim p = []" by (intro trim_blank) auto
  qed
  have "csv_rows (h @ LF # ws) =
      filter (\<lambda>row. row \<noteq> []) ([trim h'] @ map trim (split_char LF (replace_crlf ws)))"
    by (simp add: csv_rows_def h' split_char_append split_char_notin)
  also have "\<dots> = filter (\<lambda>row. row \<noteq> []) [trim h']"
    using blank by (simp add: filter_empty_conv)
  finally show ?thesis by simp
qed

lemma parseCsv_few_rows:
  "length (csv_rows text) < 2 \<Longrightarrow>
   parseCsv text =
     Inl (Error (js ''CSV file must contain a header row and at least one data row.''))"
  by (simp add: parseCsv_def)

lemma csv_rows_two_lines:
  "csv_rows (js ''a,b'' @ LF # js ''Widget,$19.99'') = [js ''a,b'', js ''Widget,$19.99'']"
  by (simp add: csv_rows_def js_simps char_defs split_char_simps trim_def is_ws_def)

text \<open>The scan of the specification and the regular expression agree as long as the
  scan's state is the parity of the quotes still to come.\<close>

lemma spec_split_from_regex:
  "(inq \<longleftrightarrow> odd (count_list s QUOTE)) \<Longrightarrow> spec_split_from inq s = split_regex s"
proof (induction s arbitrary: inq)
  case Nil
  then show ?case by (simp add: split_regex_simps)
next
  case (Cons c cs)
  show ?case
  proof (cases "c = QUOTE")
    case True
    with Cons.prems have "(\<not> inq) \<longleftrightarrow> odd (count_list cs QUOTE)" by simp
    from Cons.IH[OF this] True show ?thesis
      by (simp add: split_regex_simps char_defs)
  next
    case False
    with Cons.prems have "inq \<longleftrightarrow> odd (count_list cs QUOTE)" by simp
    from Cons.IH[OF this] False this show ?thesis
      by (auto simp: split_regex_simps)
  qed
qed

lemma row_values_sample_row:
  "row_values sample_row =
     [js ''Pro Camera X1, with stand'', js ''499.99'', js ''https://yourstore.com/pro-camera'',
      js ''https://competitorA.com/camera-x1'', js ''https://competitorB.com/pro-cam-x1'']"
  by (simp add: sample_row_def row_values_def split_regex_simps js_simps char_defs
      strip_quotes_def trim_def is_ws_def)

subsection \<open>Rows built by the parser\<close>

lemma build_row_other:
  "k \<notin> set hs \<Longrightarrow> build_row obj i hs vals k = obj k"
  by (induction hs arbitrary: obj i) (auto simp: set_prop_def)

lemma build_row_proto:
  "build_row obj i hs vals (js ''__proto__'') = obj (js ''__proto__'')"
  by (induction hs arbitrary: obj i) (auto simp: set_prop_def)

lemma build_row_entry:
  "k \<in> set hs \<Longrightarrow> k \<noteq> js ''__proto__'' \<Longrightarrow> \<exists>v. build_row obj i hs vals k = Some v"
proof (induction hs arbitrary: obj i)
  case Nil
  then show ?case by simp
next
  case (Cons h hs)
  show ?case
  proof (cases "k \<in> set hs")
    case True
    with Cons show ?thesis by simp
  next
    case False
    with Cons.prems have "k = h" by simp
    with False Cons.prems(2) show ?thesis
      by (simp add: build_row_other set_prop_def)
  qed
qed

lemma build_row_nth:
  "distinct hs \<Longrightarrow> j < length hs \<Longrightarrow> hs ! j \<noteq> js ''__proto__'' \<Longrightarrow>
   build_row obj i hs vals (hs ! j) =
     Some (if i + j < length vals then vals ! (i + j) else [])"
proof (induction hs arbitrary: obj i j)
  case Nil
  then show ?case by simp
next
  case (Cons h hs)
  show ?case
  proof (cases j)
    case 0
    with Cons.prems show ?thesis
      by (simp add: build_row_other set_prop_def)
  next
    case (Suc j')
    with Cons.prems have "build_row (set_prop obj h (if i < length vals then vals ! i else []))
        (Suc i) hs vals (hs ! j') =
      Some (if Suc i + j' < length vals then vals ! (Suc i + j') else [])"
      by (intro Cons.IH) auto
    with Suc show ?thesis by simp
  qed
qed

lemma parseCsv_rows:
  "parseCsv text = Inr (headers, data) \<Longrightarrow> r \<in> set data \<Longrightarrow>
   \<exists>line. r = build_row Map.empty 0 headers (row_values line)"
  by (auto simp: parseCsv_def Let_def split: if_splits)

lemma parseCsv_row_entry:
  "parseCsv text = Inr (headers, data) \<Longrightarrow> r \<in> set data \<Longrightarrow> h \<in> set headers \<Longrightarrow>
   h \<noteq> js ''__proto__'' \<Longrightarrow> \<exists>v. r h = Some v"
  using parseCsv_rows build_row_entry by blast

lemma get_prop_own: "r h = Some v \<Longrightarrow> get_prop r h = Str v"
  by (simp add: get_prop_def)

subsection \<open>The reduction step\<close>

lemma js_Nil_iff [simp]: "js s = [] \<longleftrightarrow> s = []" "[] = js s \<longleftrightarrow> s = []"
  by (auto simp: js_def)

lemma row_step_skip:
  "get_prop row (m_productName fm) = Undefined \<or>
   (\<exists>name. get_prop row (m_productName fm) = Str name \<and> trim name = []) \<Longrightarrow>
   row_step fm acc row index = Inr acc"
  by (auto simp: row_step_def)

lemma row_step_named:
  assumes "get_prop row (m_productName fm) = Str name" and "trim name \<noteq> []"
    and "get_prop row (m_currentPrice fm) = Str cell \<or>
         get_prop row (m_currentPrice fm) = Undefined \<and> cell = []"
  shows "row_step fm acc row index =
     (if strip_price cell = [] then
        Inr (acc\<lparr>errors := errors acc @ [price_missing_message (index + 2)]\<rparr>)
      else if parseFloat (strip_price cell) = NaN then
        Inr (acc\<lparr>errors := errors acc @ [invalid_price_message (index + 2) cell]\<rparr>)
      else
        Inr (acc\<lparr>validProducts := validProducts acc @
          [\<lparr>productName = name,
            currentPrice = parseFloat (strip_price cell),
            userProductUrl =
              (if truthy (get_prop row (m_userProductUrl fm))
               then get_prop row (m_userProductUrl fm) else Str []),
            competitorUrls = filter truthy (map (get_prop row) (m_competitorUrls fm))\<rparr>]\<rparr>))"
proof -
  from assms(2) have "name \<noteq> []" by (auto simp: trim_def)
  with assms show ?thesis
    by (auto simp: row_step_def Let_def isNaN_def)
qed

subsection \<open>\<open>parseFloat\<close> on a stripped price\<close>

lemma price_char_facts:
  "is_price_char c \<Longrightarrow> \<not> is_ws c"
  "is_price_char c \<Longrightarrow> c \<noteq> PLUS"
  "is_price_char c \<Longrightarrow> c \<noteq> 0x65 \<and> c \<noteq> 0x45 \<and> c \<noteq> 0x49"
  by (auto simp: is_price_char_def is_digit_def is_ws_def char_defs)

lemma digit_facts:
  "\<not> is_digit DOT" "\<not> is_digit MINUS"
  by (simp_all add: is_digit_def char_defs)

lemma DOT_neq_MINUS: "DOT \<noteq> MINUS"
  by (simp add: char_defs)

lemma scan_exponent_price: "list_all is_price_char r \<Longrightarrow> scan_exponent r = 0"
  by (cases r) (auto simp: scan_exponent_def dest: price_char_facts)

lemma not_Infinity_price: "list_all is_price_char u \<Longrightarrow> \<not> prefix (js ''Infinity'') u"
  by (cases u) (auto simp: js_simps dest: price_char_facts)


lemma list_all_takeWhile: "list_all P (takeWhile P xs)"
  by (induction xs) auto

lemma list_all_dropWhile: "list_all Q xs \<Longrightarrow> list_all Q (dropWhile P xs)"
  by (induction xs) auto

lemma list_all_tl: "list_all Q xs \<Longrightarrow> list_all Q (tl xs)"
  by (cases xs) auto

lemma takeWhile_digits_dot:
  "list_all is_digit ip \<Longrightarrow> takeWhile is_digit (ip @ DOT # fp) = ip"
  by (induction ip) (auto simp: digit_facts)

lemma dropWhile_digits_dot:
  "list_all is_digit ip \<Longrightarrow> dropWhile is_digit (ip @ DOT # fp) = DOT # fp"
  by (induction ip) (auto simp: digit_facts)

lemma takeWhile_all: "list_all P xs \<Longrightarrow> takeWhile P xs = xs"
  by (induction xs) auto

lemma dropWhile_all: "list_all P xs \<Longrightarrow> dropWhile P xs = []"
  by (induction xs) auto

text \<open>The value of a literal, by its shape.\<close>

lemma literal_value_int:
  assumes "list_all is_digit ip" "ip \<noteq> []"
  shows "literal_value ip = of_nat (digits_val ip)"
    and "literal_value (MINUS # ip) = - of_nat (digits_val ip)"
proof -
  from assms have "hd ip \<noteq> MINUS" by (cases ip) (auto simp: digit_facts)
  with assms show "literal_value ip = of_nat (digits_val ip)"
    by (simp add: literal_value_def Let_def takeWhile_all dropWhile_all digits_val_def)
  from assms show "literal_value (MINUS # ip) = - of_nat (digits_val ip)"
    by (simp add: literal_value_def Let_def takeWhile_all dropWhile_all digits_val_def)
qed

lemma literal_value_frac:
  assumes "list_all is_digit ip" "list_all is_digit fp"
  shows "literal_value (ip @ DOT # fp) =
           of_nat (digits_val ip) + of_nat (digits_val fp) / 10 ^ length fp"
    and "literal_value (MINUS # ip @ DOT # fp) =
           - (of_nat (digits_val ip) + of_nat (digits_val fp) / 10 ^ length fp)"
proof -
  from assms have "hd (ip @ DOT # fp) \<noteq> MINUS"
    by (cases ip) (auto simp: digit_facts DOT_neq_MINUS)
  with assms show "literal_value (ip @ DOT # fp) =
           of_nat (digits_val ip) + of_nat (digits_val fp) / 10 ^ length fp"
    by (simp add: literal_value_def Let_def takeWhile_digits_dot dropWhile_digits_dot)
  from assms show "literal_value (MINUS # ip @ DOT # fp) =
           - (of_nat (digits_val ip) + of_nat (digits_val fp) / 10 ^ length fp)"
    by (simp add: literal_value_def Let_def takeWhile_digits_dot dropWhile_digits_dot)
qed

text \<open>On a string of price characters the scanner of \<open>parseFloat\<close> meets no white space,
  no plus sign, no \<open>Infinity\<close> and no exponent.\<close>

lemma scan_unsigned_price:
  assumes "list_all is_price_char u"
  shows "scan_unsigned u =
     (let ip = takeWhile is_digit u; r1 = dropWhile is_digit u
      in if r1 \<noteq> [] \<and> hd r1 = DOT then
           (let fp = takeWhile is_digit (tl r1)
            in if ip = [] \<and> fp = [] then None
               else Some (of_nat (digits_val ip) + of_nat (digits_val fp) / 10 ^ length fp))
         else if ip = [] then None else Some (of_nat (digits_val ip)))"
proof -
  have r1: "list_all is_price_char (dropWhile is_digit u)"
    using assms by (rule list_all_dropWhile)
  show ?thesis
  proof (cases "dropWhile is_digit u")
    case Nil
    show ?thesis by (simp only: scan_unsigned_def Let_def Nil list.case) simp
  next
    case (Cons c r)
    with r1 have r: "list_all is_price_char r" by simp
    then have "list_all is_price_char (dropWhile is_digit r)" by (rule list_all_dropWhile)
    then have e2: "scan_exponent (dropWhile is_digit r) = 0" by (rule scan_exponent_price)
    from r1 Cons have e1: "scan_exponent (c # r) = 0"
      using scan_exponent_price[of "c # r"] by simp
    show ?thesis
      using Cons e1 e2 by (simp add: scan_unsigned_def Let_def pow10_def)
  qed
qed

lemma value_cases:
  assumes "list_all is_digit ip" "list_all is_digit fp"
  shows "(case (if c then (if ip = [] \<and> fp = [] then None
                   else Some (of_nat (digits_val ip) + of_nat (digits_val fp) / 10 ^ length fp))
               else if ip = [] then None else Some (of_nat (digits_val ip))) of
            None \<Rightarrow> NaN | Some m \<Rightarrow> to_number (if neg then - m else m)) =
         (case (if c then (if ip = [] \<and> fp = [] then None
                   else Some ((if neg then [MINUS] else []) @ ip @ DOT # fp))
               else if ip = [] then None else Some ((if neg then [MINUS] else []) @ ip)) of
            None \<Rightarrow> NaN | Some p \<Rightarrow> to_number (literal_value p))"
  using literal_value_int[OF assms(1)] literal_value_frac[OF assms] by auto

lemma parseFloat_price:
  assumes "list_all is_price_char s"
  shows "parseFloat s =
     (case numeric_prefix s of None \<Rightarrow> NaN | Some p \<Rightarrow> to_number (literal_value p))"
proof -
  let ?neg = "s \<noteq> [] \<and> hd s = MINUS"
  let ?u = "if ?neg then tl s else s"
  let ?ip = "takeWhile is_digit ?u"
  let ?r1 = "dropWhile is_digit ?u"
  let ?fp = "takeWhile is_digit (tl ?r1)"
  let ?sg = "if ?neg then [MINUS] else []"
  have t: "dropWhile is_ws s = s"
    using assms by (cases s) (auto dest: price_char_facts)
  have plus: "s \<noteq> [] \<Longrightarrow> hd s \<noteq> PLUS"
    using assms by (cases s) (auto dest: price_char_facts)
  have u: "list_all is_price_char ?u"
    using assms by (simp add: list_all_tl)
  have inf: "\<not> prefix (js ''Infinity'') ?u" using u by (rule not_Infinity_price)
  have u': "(if s \<noteq> [] \<and> (hd s = MINUS \<or> hd s = PLUS) then tl s else s) = ?u"
    using plus by auto
  have pf: "parseFloat s =
      (case scan_unsigned ?u of None \<Rightarrow> NaN
       | Some m \<Rightarrow> to_number (if ?neg then - m else m))"
    unfolding parseFloat_def t Let_def u' using inf by simp
  have dig: "list_all is_digit ?ip" "list_all is_digit ?fp"
    by (simp_all only: list_all_takeWhile)
  have su: "scan_unsigned ?u =
      (if ?r1 \<noteq> [] \<and> hd ?r1 = DOT then
         (if ?ip = [] \<and> ?fp = [] then None
          else Some (of_nat (digits_val ?ip) + of_nat (digits_val ?fp) / 10 ^ length ?fp))
       else if ?ip = [] then None else Some (of_nat (digits_val ?ip)))"
    unfolding scan_unsigned_price[OF u] Let_def by (rule refl)
  have np: "numeric_prefix s =
      (if ?r1 \<noteq> [] \<and> hd ?r1 = DOT then
         (if ?ip = [] \<and> ?fp = [] then None else Some (?sg @ ?ip @ DOT # ?fp))
       else if ?ip = [] then None else Some (?sg @ ?ip))"
    unfolding numeric_prefix_def Let_def by (rule refl)
  show ?thesis
    unfolding pf su np by (rule value_cases[OF dig])
qed


declare longest_numeric_prefix.simps [simp del]

lemma takeWhile_digits_append:
  "list_all is_digit ip \<Longrightarrow> takeWhile is_digit (ip @ t) = ip @ takeWhile is_digit t"
  by (induction ip) auto

lemma dropWhile_digits_append:
  "list_all is_digit ip \<Longrightarrow> dropWhile is_digit (ip @ t) = dropWhile is_digit t"
  by (induction ip) auto

text \<open>The shapes of a numeric literal.\<close>

lemma numeric_literal_shape:
  assumes "is_numeric_literal q"
  shows "\<exists>sg ip fp. (sg = [] \<or> sg = [MINUS]) \<and> list_all is_digit ip \<and> list_all is_digit fp \<and>
           (q = sg @ ip \<and> ip \<noteq> [] \<or> q = sg @ ip @ DOT # fp \<and> (ip \<noteq> [] \<or> fp \<noteq> []))"
proof -
  define neg where "neg \<longleftrightarrow> q \<noteq> [] \<and> hd q = MINUS"
  define b where "b = (if neg then tl q else q)"
  define sg where "sg = (if neg then [MINUS] else [])"
  define ip where "ip = takeWhile is_digit b"
  define r where "r = dropWhile is_digit b"
  have sg: "sg = [] \<or> sg = [MINUS]" by (simp add: sg_def)
  have q: "q = sg @ b" by (cases q) (auto simp: sg_def b_def neg_def)
  have b: "b = ip @ r" by (simp add: ip_def r_def)
  have ip: "list_all is_digit ip" unfolding ip_def by (rule list_all_takeWhile)
  from assms have lit: "if r = [] then ip \<noteq> []
      else hd r = DOT \<and> list_all is_digit (tl r) \<and> (ip \<noteq> [] \<or> tl r \<noteq> [])"
    unfolding is_numeric_literal_def is_unsigned_literal_def Let_def
      neg_def[symmetric] b_def[symmetric] ip_def[symmetric] r_def[symmetric] .
  show ?thesis
  proof (cases "r = []")
    case True
    with lit q b ip sg show ?thesis
      by (intro exI[of _ sg] exI[of _ ip] exI[of _ "[]"]) simp
  next
    case False
    with lit have l: "hd r = DOT" "list_all is_digit (tl r)" "ip \<noteq> [] \<or> tl r \<noteq> []"
      by simp_all
    from False l(1) have "r = DOT # tl r" by (cases r) auto
    with b q have "q = sg @ ip @ DOT # tl r" by simp
    with l ip sg show ?thesis
      by (intro exI[of _ sg] exI[of _ ip] exI[of _ "tl r"]) simp
  qed
qed

lemma hd_digits_not_minus:
  "list_all is_digit ip \<Longrightarrow> ip \<noteq> [] \<Longrightarrow> hd (ip @ t) \<noteq> MINUS"
  "list_all is_digit ip \<Longrightarrow> hd (ip @ DOT # t) \<noteq> MINUS"
  by (cases ip; auto simp: digit_facts DOT_neq_MINUS)+

lemma numeric_literal_int:
  assumes "sg = [] \<or> sg = [MINUS]" "list_all is_digit ip" "ip \<noteq> []"
  shows "is_numeric_literal (sg @ ip)"
  using assms hd_digits_not_minus(1)[of ip "[]"]
  by (auto simp: is_numeric_literal_def is_unsigned_literal_def Let_def takeWhile_all
      dropWhile_all simp del: takeWhile_eq_Nil_iff dropWhile_eq_Nil_conv)

lemma numeric_literal_frac:
  assumes "sg = [] \<or> sg = [MINUS]" "list_all is_digit ip" "list_all is_digit fp"
    "ip \<noteq> [] \<or> fp \<noteq> []"
  shows "is_numeric_literal (sg @ ip @ DOT # fp)"
  using assms hd_digits_not_minus(2)[of ip fp]
  by (auto simp: is_numeric_literal_def is_unsigned_literal_def Let_def takeWhile_digits_dot
      dropWhile_digits_dot digit_facts simp del: takeWhile_eq_Nil_iff dropWhile_eq_Nil_conv)

text \<open>What the scanner finds: a literal that is a prefix of the string.\<close>

lemma numeric_prefix_sound:
  assumes "numeric_prefix s = Some p"
  shows "prefix p s \<and> is_numeric_literal p"
proof -
  define neg where "neg \<longleftrightarrow> s \<noteq> [] \<and> hd s = MINUS"
  define sg where "sg = (if neg then [MINUS] else [])"
  define u where "u = (if neg then tl s else s)"
  define ip where "ip = takeWhile is_digit u"
  define r1 where "r1 = dropWhile is_digit u"
  define fp where "fp = takeWhile is_digit (tl r1)"
  have sg: "sg = [] \<or> sg = [MINUS]" by (simp add: sg_def)
  have s: "s = sg @ u" by (cases s) (auto simp: sg_def u_def neg_def)
  have u: "u = ip @ r1" by (simp add: ip_def r1_def)
  have dig: "list_all is_digit ip" "list_all is_digit fp"
    unfolding ip_def fp_def by (rule list_all_takeWhile)+
  have np: "numeric_prefix s =
      (if r1 \<noteq> [] \<and> hd r1 = DOT then
         (if ip = [] \<and> fp = [] then None else Some (sg @ ip @ DOT # fp))
       else if ip = [] then None else Some (sg @ ip))"
    unfolding numeric_prefix_def Let_def
      neg_def[symmetric] sg_def[symmetric] u_def[symmetric] ip_def[symmetric]
      r1_def[symmetric] fp_def[symmetric] by (rule refl)
  show ?thesis
  proof (cases "r1 \<noteq> [] \<and> hd r1 = DOT")
    case True
    with np assms have p: "p = sg @ ip @ DOT # fp" and ne: "ip \<noteq> [] \<or> fp \<noteq> []"
      by (auto split: if_splits)
    from True have "r1 = DOT # tl r1" by (cases r1) auto
    moreover have "tl r1 = fp @ dropWhile is_digit (tl r1)" by (simp add: fp_def)
    ultimately have "s = sg @ ip @ DOT # fp @ dropWhile is_digit (tl r1)"
      using s u by simp
    then have "prefix p s" unfolding p by (metis append.assoc append_Cons prefixI)
    with numeric_literal_frac[OF sg dig ne] p show ?thesis by simp
  next
    case False
    with np assms have p: "p = sg @ ip" and ne: "ip \<noteq> []"
      by (auto split: if_splits)
    from s u have "s = sg @ ip @ r1" by simp
    then have "prefix p s" unfolding p by (metis append.assoc prefixI)
    with numeric_literal_int[OF sg dig(1) ne] p show ?thesis by simp
  qed
qed

text \<open>What the scanner finds on a string that starts with a literal.\<close>

lemma numeric_prefix_int:
  assumes "sg = [] \<or> sg = [MINUS]" "list_all is_digit ip" "ip \<noteq> []"
  shows "\<exists>p. numeric_prefix (sg @ ip @ t) = Some p \<and> prefix (sg @ ip) p"
proof -
  have u: "(if sg @ ip @ t \<noteq> [] \<and> hd (sg @ ip @ t) = MINUS then tl (sg @ ip @ t)
            else sg @ ip @ t) = ip @ t"
    and g: "(if sg @ ip @ t \<noteq> [] \<and> hd (sg @ ip @ t) = MINUS then [MINUS] else []) = sg"
    using assms hd_digits_not_minus(1)[of ip t] by auto
  show ?thesis
    unfolding numeric_prefix_def Let_def u g
    using assms
    by (auto simp: takeWhile_digits_append dropWhile_digits_append)
qed

lemma numeric_prefix_frac:
  assumes "sg = [] \<or> sg = [MINUS]" "list_all is_digit ip" "list_all is_digit fp"
    "ip \<noteq> [] \<or> fp \<noteq> []"
  shows "\<exists>p. numeric_prefix (sg @ ip @ DOT # fp @ t) = Some p \<and> prefix (sg @ ip @ DOT # fp) p"
proof -
  let ?s = "sg @ ip @ DOT # fp @ t"
  have u: "(if ?s \<noteq> [] \<and> hd ?s = MINUS then tl ?s else ?s) = ip @ DOT # fp @ t"
    and g: "(if ?s \<noteq> [] \<and> hd ?s = MINUS then [MINUS] else []) = sg"
    using assms hd_digits_not_minus(2)[of ip "fp @ t"] by auto
  show ?thesis
    unfolding numeric_prefix_def Let_def u g
    using assms
    by (auto simp: takeWhile_digits_dot dropWhile_digits_dot takeWhile_digits_append)
qed

lemma numeric_prefix_complete:
  assumes "is_numeric_literal q" "prefix q s"
  shows "\<exists>p. numeric_prefix s = Some p \<and> prefix q p"
proof -
  from assms(2) obtain t where s: "s = q @ t" by (auto simp: prefix_def)
  from numeric_literal_shape[OF assms(1)] obtain sg ip fp where
    sg: "sg = [] \<or> sg = [MINUS]" and dig: "list_all is_digit ip" "list_all is_digit fp" and
    q: "q = sg @ ip \<and> ip \<noteq> [] \<or> q = sg @ ip @ DOT # fp \<and> (ip \<noteq> [] \<or> fp \<noteq> [])"
    by blast
  from q show ?thesis
  proof
    assume "q = sg @ ip \<and> ip \<noteq> []"
    with numeric_prefix_int[OF sg dig(1), of t] s show ?thesis by simp
  next
    assume "q = sg @ ip @ DOT # fp \<and> (ip \<noteq> [] \<or> fp \<noteq> [])"
    with numeric_prefix_frac[OF sg dig, of t] s show ?thesis by simp
  qed
qed


text \<open>The search from the longest prefix downwards finds the greatest literal prefix.\<close>

lemma longest_numeric_prefix_greatest:
  "prefix p s \<Longrightarrow> is_numeric_literal p \<Longrightarrow>
   (\<forall>q. prefix q s \<and> is_numeric_literal q \<longrightarrow> prefix q p) \<Longrightarrow>
   longest_numeric_prefix s = Some p"
proof (induction s rule: longest_numeric_prefix.induct)
  case (1 s)
  show ?case
  proof (cases "is_numeric_literal s")
    case True
    with "1.prems"(3) have "prefix s p" by simp
    with "1.prems"(1) have "s = p" by (simp add: prefix_order.antisym)
    with True show ?thesis by (simp add: longest_numeric_prefix.simps)
  next
    case False
    with "1.prems"(1,2) have ne: "s \<noteq> []" and neq: "p \<noteq> s" by auto
    from ne have s: "s = butlast s @ [last s]" by simp
    with "1.prems"(1) neq have p: "prefix p (butlast s)"
      by (metis prefix_snoc)
    have "\<forall>q. prefix q (butlast s) \<and> is_numeric_literal q \<longrightarrow> prefix q p"
      using "1.prems"(3) by (metis prefix_order.trans prefixeq_butlast)
    from "1.IH"[OF False ne p "1.prems"(2) this] False ne show ?thesis
      by (simp add: longest_numeric_prefix.simps[of s])
  qed
qed

lemma longest_numeric_prefix_none:
  "(\<forall>q. prefix q s \<longrightarrow> \<not> is_numeric_literal q) \<Longrightarrow> longest_numeric_prefix s = None"
proof (induction s rule: longest_numeric_prefix.induct)
  case (1 s)
  then have nl: "\<not> is_numeric_literal s" by simp
  show ?case
  proof (cases "s = []")
    case True
    with nl show ?thesis by (simp add: longest_numeric_prefix.simps[of "[]"])
  next
    case False
    have "\<forall>q. prefix q (butlast s) \<longrightarrow> \<not> is_numeric_literal q"
      using "1.prems" by (metis prefix_order.trans prefixeq_butlast)
    from "1.IH"[OF nl False this] nl False show ?thesis
      by (simp add: longest_numeric_prefix.simps[of s])
  qed
qed

lemma longest_numeric_prefix_scan: "longest_numeric_prefix s = numeric_prefix s"
proof (cases "numeric_prefix s")
  case None
  then have "\<forall>q. prefix q s \<longrightarrow> \<not> is_numeric_literal q"
    using numeric_prefix_complete[of _ s] by auto
  with None show ?thesis by (simp add: longest_numeric_prefix_none)
next
  case (Some p)
  from numeric_prefix_sound[OF Some] have p: "prefix p s" "is_numeric_literal p" by simp_all
  have "\<forall>q. prefix q s \<and> is_numeric_literal q \<longrightarrow> prefix q p"
    using numeric_prefix_complete[of _ s] Some by auto
  with p Some show ?thesis by (simp add: longest_numeric_prefix_greatest)
qed

text \<open>\<open>parseFloat\<close> on a stripped price: the value of the longest numeric prefix.\<close>

lemma parseFloat_longest_prefix:
  "list_all is_price_char s \<Longrightarrow>
   parseFloat s =
     (case longest_numeric_prefix s of
        None \<Rightarrow> NaN | Some p \<Rightarrow> to_number (literal_value p))"
  by (simp add: parseFloat_price longest_numeric_prefix_scan)

lemma strip_price_chars: "list_all is_price_char (strip_price cell)"
  by (simp add: strip_price_def list_all_iff)

lemmas eval_defs = js_simps char_defs split_char_simps split_regex_simps trim_def is_ws_def
  strip_quotes_def

lemma to_number_not_NaN: "to_number r \<noteq> NaN"
  by (simp add: to_number_def)

lemma to_number_finite: "\<bar>r\<bar> < 2 ^ 1024 - 2 ^ 970 \<Longrightarrow> to_number r = Val r"
  by (auto simp: to_number_def)

lemmas parseFloat_eval = parseFloat_def to_number_def scan_unsigned_def js_simps is_ws_def is_digit_def
  char_defs digits_val_def scan_exponent_def pow10_def

lemma two_headers:
  "map trim (split_char COMMA (js ''productName,currentPrice'')) =
     [js ''productName'', js ''currentPrice'']"
  by (simp add: eval_defs)

lemma two_column_row_get:
  "get_prop (two_column_row name price) (js ''productName'') = Str name"
  "get_prop (two_column_row name price) (js ''currentPrice'') = Str price"
  "get_prop (two_column_row name price) [] = Undefined"
  by (simp_all add: two_column_row_def set_prop_def get_prop_def object_prototype_keys_def
      js_simps)

section \<open>The CSV parser: claims\<close>

text \<open>
  C5. Parsing fails with the format error (the message asks for a header row and at
  least one data row) exactly when fewer than two non-blank lines remain after CRLF
  normalization, trimming and removal of blank lines; otherwise it succeeds with the
  header list of the first line and one row per further line. In particular a header
  line followed only by blank lines fails.
\<close>

theorem parseCsv_needs_two_rows:
  "(length (csv_rows text) < 2 \<longrightarrow>
      parseCsv text =
        Inl (Error (js ''CSV file must contain a header row and at least one data row.''))) \<and>
   (2 \<le> length (csv_rows text) \<longrightarrow>
      (\<exists>headers data. parseCsv text = Inr (headers, data) \<and>
         headers = map trim (split_char COMMA (hd (csv_rows text))) \<and>
         length data = length (csv_rows text) - 1)) \<and>
   (LF \<notin> set h \<and> (\<forall>c \<in> set ws. is_ws c) \<longrightarrow>
      parseCsv (h @ LF # ws) =
        Inl (Error (js ''CSV file must contain a header row and at least one data row.'')))"
proof (intro conjI impI)
  assume "length (csv_rows text) < 2"
  then show "parseCsv text =
      Inl (Error (js ''CSV file must contain a header row and at least one data row.''))"
    by (rule parseCsv_few_rows)
next
  assume "2 \<le> length (csv_rows text)"
  then show "\<exists>headers data. parseCsv text = Inr (headers, data) \<and>
         headers = map trim (split_char COMMA (hd (csv_rows text))) \<and>
         length data = length (csv_rows text) - 1"
    by (simp add: parseCsv_def Let_def)
next
  assume "LF \<notin> set h \<and> (\<forall>c \<in> set ws. is_ws c)"
  then have "length (csv_rows (h @ LF # ws)) < 2"
    using csv_rows_header_only[of h ws] by simp
  then show "parseCsv (h @ LF # ws) =
      Inl (Error (js ''CSV file must contain a header row and at least one data row.''))"
    by (rule parseCsv_few_rows)
qed

theorem parseCsv_needs_two_rows_witness:
  "parseCsv (js ''productName,currentPrice'') =
     Inl (Error (js ''CSV file must contain a header row and at least one data row.'')) \<and>
   (\<exists>headers data.
      parseCsv (js ''a,b'' @ LF # js ''Widget,$19.99'') = Inr (headers, data) \<and>
      headers = [js ''a'', js ''b''] \<and> length data = 1) \<and>
   parseCsv (js ''productName,currentPrice'' @ LF # [0x20, 0x0D, 0x0A, 0x09]) =
     Inl (Error (js ''CSV file must contain a header row and at least one data row.''))"
proof -
  have 1: "length (csv_rows (js ''productName,currentPrice'')) < 2"
    by (simp add: csv_rows_def js_simps char_defs split_char_simps trim_def is_ws_def)
  have 2: "2 \<le> length (csv_rows (js ''a,b'' @ LF # js ''Widget,$19.99''))"
    by (simp add: csv_rows_two_lines)
  have 3: "LF \<notin> set (js ''productName,currentPrice'') \<and>
           (\<forall>c \<in> set [0x20, 0x0D, 0x0A, 0x09]. is_ws c)"
    by (simp add: js_simps char_defs is_ws_def)
  have 4: "map trim (split_char COMMA (hd (csv_rows (js ''a,b'' @ LF # js ''Widget,$19.99''))))
           = [js ''a'', js ''b'']"
    by (simp only: csv_rows_two_lines list.sel)
       (simp add: js_simps char_defs split_char_simps trim_def is_ws_def)
  show ?thesis
    using parseCsv_needs_two_rows[of "js ''productName,currentPrice''"]
      parseCsv_needs_two_rows[of "js ''a,b'' @ LF # js ''Widget,$19.99''"]
      parseCsv_needs_two_rows[of _ "js ''productName,currentPrice''" "[0x20, 0x0D, 0x0A, 0x09]"]
      1 2 3 4
    by (simp add: csv_rows_two_lines)
qed

text \<open>
  C2. The parser is meant to separate the fields of a data line only at commas that are
  not enclosed in a pair of double quotes (the source's comment: ignore commas inside
  double quotes). On the line \<open>"a,b"c"\<close> it does not: the comma stands between the first
  two quotes, and the line is split there, because the lookahead of the regular
  expression only counts the quotes that follow the comma, and two follow it. The scan
  that is inside or outside the quotes leaves the line whole.
\<close>

theorem split_regex_splits_inside_quotes:
  "split_regex (js ''\"a,b\"c\"'') = [js ''\"a'', js ''b\"c\"''] \<and>
   spec_split_fields (js ''\"a,b\"c\"'') = [js ''\"a,b\"c\"''] \<and>
   row_values (js ''\"a,b\"c\"'') = [js ''a'', js ''b\"c'']"
  by (simp add: spec_split_fields_def row_values_def split_regex_simps js_simps char_defs
      strip_quotes_def trim_def is_ws_def)

text \<open>
  Where the parser does what is meant: on every line that holds an even number of double
  quotes the regular expression separates the fields at exactly the commas outside the
  quote pairs, so the first data row of the sample file keeps
  \<open>Pro Camera X1, with stand\<close> as one field (\<open>row_values_sample_row\<close>).
\<close>

lemma split_regex_balanced_quotes:
  "even (count_list line QUOTE) \<Longrightarrow> split_regex line = spec_split_fields line"
  using spec_split_from_regex[of False line] by (simp add: spec_split_fields_def)

text \<open>Each value loses one leading and one trailing double quote, whichever it has.\<close>

lemma strip_quotes_cases:
  "strip_quotes (QUOTE # s @ [QUOTE]) = s"
  "s = [] \<or> last s \<noteq> QUOTE \<Longrightarrow> strip_quotes (QUOTE # s) = s"
  "s = [] \<or> hd s \<noteq> QUOTE \<Longrightarrow> strip_quotes (s @ [QUOTE]) = s"
  "(s = [] \<or> hd s \<noteq> QUOTE) \<and> (s = [] \<or> last s \<noteq> QUOTE) \<Longrightarrow> strip_quotes s = s"
  by (cases s; auto simp: strip_quotes_def Let_def)+

section \<open>Row normalization: claims\<close>

subsection \<open>Evaluation of the two-column examples\<close>

lemma csv_rows_widget:
  "csv_rows (js ''productName,currentPrice'' @ LF # js ''Widget,$19.99'') =
     [js ''productName,currentPrice'', js ''Widget,$19.99'']"
  by (simp add: csv_rows_def eval_defs)

lemma row_values_widget: "row_values (js ''Widget,$19.99'') = [js ''Widget'', js ''$19.99'']"
  by (simp add: row_values_def eval_defs)

lemma parseCsv_widget:
  "parseCsv (js ''productName,currentPrice'' @ LF # js ''Widget,$19.99'') =
     Inr ([js ''productName'', js ''currentPrice''],
          [two_column_row (js ''Widget'') (js ''$19.99'')])"
  by (simp add: parseCsv_def csv_rows_widget two_headers row_values_widget two_column_row_def)

lemma strip_price_widget: "strip_price (js ''$19.99'') = js ''19.99''"
  by (simp add: strip_price_def is_price_char_def is_digit_def js_simps char_defs)

lemma parseFloat_19_99: "parseFloat (js ''19.99'') = Val (1999 / 100)"
  by (simp add: parseFloat_eval)

lemma trim_widget: "trim (js ''Widget'') = js ''Widget''"
  by (simp add: trim_def is_ws_def js_simps)

lemma two_column_mapping_simps:
  "m_productName two_column_mapping = js ''productName''"
  "m_currentPrice two_column_mapping = js ''currentPrice''"
  "m_userProductUrl two_column_mapping = []"
  "m_competitorUrls two_column_mapping = []"
  by (simp_all add: two_column_mapping_def)

text \<open>A row of the two-column file with a name that is not blank.\<close>

lemma two_column_step:
  assumes "trim name \<noteq> []"
  shows "row_step two_column_mapping acc (two_column_row name cell) index =
     (if strip_price cell = [] then
        Inr (acc\<lparr>errors := errors acc @ [price_missing_message (index + 2)]\<rparr>)
      else if parseFloat (strip_price cell) = NaN then
        Inr (acc\<lparr>errors := errors acc @ [invalid_price_message (index + 2) cell]\<rparr>)
      else
        Inr (acc\<lparr>validProducts := validProducts acc @
          [\<lparr>productName = name, currentPrice = parseFloat (strip_price cell),
            userProductUrl = Str [], competitorUrls = []\<rparr>]\<rparr>))"
proof -
  let ?r = "two_column_row name cell"
  have 1: "get_prop ?r (m_productName two_column_mapping) = Str name"
    by (simp add: two_column_mapping_simps two_column_row_get)
  have 3: "get_prop ?r (m_currentPrice two_column_mapping) = Str cell \<or>
           get_prop ?r (m_currentPrice two_column_mapping) = Undefined \<and> cell = []"
    by (simp add: two_column_mapping_simps two_column_row_get)
  show ?thesis
    unfolding row_step_named[OF 1 assms 3]
    by (simp add: two_column_mapping_simps two_column_row_get truthy_def)
qed

lemma widget_step:
  "row_step two_column_mapping acc (two_column_row (js ''Widget'') (js ''$19.99'')) 0 =
    Inr (acc\<lparr>validProducts := validProducts acc @
          [\<lparr>productName = js ''Widget'', currentPrice = Val (1999 / 100),
            userProductUrl = Str [], competitorUrls = []\<rparr>]\<rparr>)"
proof -
  have "trim (js ''Widget'') \<noteq> []" by (simp add: trim_widget)
  from two_column_step[OF this] show ?thesis
    by (simp add: strip_price_widget parseFloat_19_99)
qed

lemma js_append: "js (a @ b) = js a @ js b"
  by (simp add: js_def)

lemma price_missing_row_2: "price_missing_message (0 + 2) = js ''Row 2: Price is missing.''"
  by (simp add: price_missing_message_def js_simps)

lemma trim_spaces: "trim (js ''  '') = []"
  by (simp add: trim_def is_ws_def js_simps)

lemma strip_price_NA: "strip_price (js ''N/A'') = []"
  by (simp add: strip_price_def is_price_char_def is_digit_def js_simps char_defs)

lemma strip_price_minus: "strip_price (js ''-'') = js ''-''"
  by (simp add: strip_price_def is_price_char_def is_digit_def js_simps char_defs)

lemma parseFloat_minus: "parseFloat (js ''-'') = NaN"
  by (simp add: parseFloat_eval)

subsection \<open>Price cells\<close>

text \<open>
  C1. For every data row whose mapped product-name cell is not blank, the normalizer
  reads the mapped price cell, keeps only its digits, dots and minus signs, and hands
  what is left to \<open>parseFloat\<close>: an empty rest or NaN gives a row error, any other number
  becomes the price of the product that is appended. With the headers
  \<open>productName,currentPrice\<close> mapped to themselves, the line \<open>Widget,$19.99\<close> is parsed into
  one row and submitted as one product named Widget with the price 19.99.
\<close>

theorem row_step_reads_price:
  "(get_prop row (m_productName fm) = Str name \<and> trim name \<noteq> [] \<and>
    get_prop row (m_currentPrice fm) = Str cell \<longrightarrow>
      strip_price cell = filter (\<lambda>c. is_digit c \<or> c = DOT \<or> c = MINUS) cell \<and>
      row_step fm acc row index =
        (if strip_price cell = [] then
           Inr (acc\<lparr>errors := errors acc @ [price_missing_message (index + 2)]\<rparr>)
         else if isNaN (parseFloat (strip_price cell)) then
           Inr (acc\<lparr>errors := errors acc @ [invalid_price_message (index + 2) cell]\<rparr>)
         else
           Inr (acc\<lparr>validProducts := validProducts acc @
             [\<lparr>productName = name,
               currentPrice = parseFloat (strip_price cell),
               userProductUrl =
                 (if truthy (get_prop row (m_userProductUrl fm))
                  then get_prop row (m_userProductUrl fm) else Str []),
               competitorUrls =
                 filter truthy (map (get_prop row) (m_competitorUrls fm))\<rparr>]\<rparr>))) \<and>
   parseCsv (js ''productName,currentPrice'' @ LF # js ''Widget,$19.99'') =
     Inr ([js ''productName'', js ''currentPrice''],
          [two_column_row (js ''Widget'') (js ''$19.99'')]) \<and>
   handleSubmit (csv_state [two_column_row (js ''Widget'') (js ''$19.99'')] two_column_mapping) =
     \<lparr>shown = None,
      dispatched = Some (CsvRequest
        [\<lparr>productName = js ''Widget'', currentPrice = Val (1999 / 100),
          userProductUrl = Str [], competitorUrls = []\<rparr>])\<rparr>"
proof (intro conjI impI)
  show "strip_price cell = filter (\<lambda>c. is_digit c \<or> c = DOT \<or> c = MINUS) cell"
    unfolding strip_price_def by (rule filter_cong) (simp_all add: is_price_char_def)
next
  assume "get_prop row (m_productName fm) = Str name \<and> trim name \<noteq> [] \<and>
    get_prop row (m_currentPrice fm) = Str cell"
  then show "row_step fm acc row index =
        (if strip_price cell = [] then
           Inr (acc\<lparr>errors := errors acc @ [price_missing_message (index + 2)]\<rparr>)
         else if isNaN (parseFloat (strip_price cell)) then
           Inr (acc\<lparr>errors := errors acc @ [invalid_price_message (index + 2) cell]\<rparr>)
         else
           Inr (acc\<lparr>validProducts := validProducts acc @
             [\<lparr>productName = name,
               currentPrice = parseFloat (strip_price cell),
               userProductUrl =
                 (if truthy (get_prop row (m_userProductUrl fm))
                  then get_prop row (m_userProductUrl fm) else Str []),
               competitorUrls =
                 filter truthy (map (get_prop row) (m_competitorUrls fm))\<rparr>]\<rparr>))"
    using row_step_named[of row fm name cell acc index] by (simp add: isNaN_def)
next
  show "parseCsv (js ''productName,currentPrice'' @ LF # js ''Widget,$19.99'') =
     Inr ([js ''productName'', js ''currentPrice''],
          [two_column_row (js ''Widget'') (js ''$19.99'')])"
    by (rule parseCsv_widget)
next
  show "handleSubmit (csv_state [two_column_row (js ''Widget'') (js ''$19.99'')]
          two_column_mapping) =
     \<lparr>shown = None,
      dispatched = Some (CsvRequest
        [\<lparr>productName = js ''Widget'', currentPrice = Val (1999 / 100),
          userProductUrl = Str [], competitorUrls = []\<rparr>])\<rparr>"
    by (simp add: handleSubmit_def csv_state_def two_column_mapping_simps widget_step)
qed

theorem row_step_reads_price_witness:
  "get_prop (two_column_row (js ''Widget'') (js ''$19.99''))
     (m_productName two_column_mapping) = Str (js ''Widget'') \<and>
   trim (js ''Widget'') \<noteq> [] \<and>
   get_prop (two_column_row (js ''Widget'') (js ''$19.99''))
     (m_currentPrice two_column_mapping) = Str (js ''$19.99'') \<and>
   row_step two_column_mapping \<lparr>validProducts = [], errors = []\<rparr>
     (two_column_row (js ''Widget'') (js ''$19.99'')) 0 =
     Inr \<lparr>validProducts =
            [\<lparr>productName = js ''Widget'', currentPrice = Val (1999 / 100),
              userProductUrl = Str [], competitorUrls = []\<rparr>],
          errors = []\<rparr>"
proof -
  let ?r = "two_column_row (js ''Widget'') (js ''$19.99'')"
  have 1: "get_prop ?r (m_productName two_column_mapping) = Str (js ''Widget'')"
    by (simp add: two_column_mapping_simps two_column_row_get)
  have 2: "trim (js ''Widget'') \<noteq> []"
    by (simp add: trim_widget)
  have 3: "get_prop ?r (m_currentPrice two_column_mapping) = Str (js ''$19.99'')"
    by (simp add: two_column_mapping_simps two_column_row_get)
  have 4: "get_prop ?r [] = Undefined"
    by (simp add: two_column_row_get)
  show ?thesis
    using row_step_reads_price[of ?r two_column_mapping "js ''Widget''" "js ''$19.99''"
        "\<lparr>validProducts = [], errors = []\<rparr>" 0] 1 2 3
    by (simp add: 4 two_column_mapping_simps strip_price_widget parseFloat_19_99 truthy_def
        isNaN_def)
qed

text \<open>
  C3. A row whose mapped product-name cell is missing, empty or only white space is
  skipped: the accumulator is returned unchanged, with no product and no error. A row
  with a name whose stripped price is empty (a missing cell, or a cell such as \<open>N/A\<close>)
  or is not a number gets one row error appended and adds no product.
\<close>

theorem row_step_skip_or_error:
  "((get_prop row (m_productName fm) = Undefined \<or>
     (\<exists>name. get_prop row (m_productName fm) = Str name \<and> trim name = [])) \<longrightarrow>
      row_step fm acc row index = Inr acc) \<and>
   (get_prop row (m_productName fm) = Str name \<and> trim name \<noteq> [] \<and>
    (get_prop row (m_currentPrice fm) = Undefined \<or>
     (\<exists>cell. get_prop row (m_currentPrice fm) = Str cell \<and> strip_price cell = [])) \<longrightarrow>
      row_step fm acc row index =
        Inr (acc\<lparr>errors := errors acc @ [price_missing_message (index + 2)]\<rparr>)) \<and>
   (get_prop row (m_productName fm) = Str name \<and> trim name \<noteq> [] \<and>
    get_prop row (m_currentPrice fm) = Str cell \<and> strip_price cell \<noteq> [] \<and>
    isNaN (parseFloat (strip_price cell)) \<longrightarrow>
      row_step fm acc row index =
        Inr (acc\<lparr>errors := errors acc @ [invalid_price_message (index + 2) cell]\<rparr>)) \<and>
   row_step two_column_mapping acc (two_column_row (js ''Widget'') (js ''N/A'')) 0 =
     Inr (acc\<lparr>errors := errors acc @ [js ''Row 2: Price is missing.'']\<rparr>) \<and>
   row_step two_column_mapping acc (two_column_row [] (js ''19.99'')) 0 = Inr acc"
proof (intro conjI impI)
  assume "get_prop row (m_productName fm) = Undefined \<or>
     (\<exists>name. get_prop row (m_productName fm) = Str name \<and> trim name = [])"
  then show "row_step fm acc row index = Inr acc" by (rule row_step_skip)
next
  assume a: "get_prop row (m_productName fm) = Str name \<and> trim name \<noteq> [] \<and>
    (get_prop row (m_currentPrice fm) = Undefined \<or>
     (\<exists>cell. get_prop row (m_currentPrice fm) = Str cell \<and> strip_price cell = []))"
  then obtain cell where
    "get_prop row (m_currentPrice fm) = Str cell \<or>
     get_prop row (m_currentPrice fm) = Undefined \<and> cell = []"
    and "strip_price cell = []"
    by (auto simp: strip_price_def)
  with a row_step_named[of row fm name cell acc index]
  show "row_step fm acc row index =
        Inr (acc\<lparr>errors := errors acc @ [price_missing_message (index + 2)]\<rparr>)"
    by simp
next
  assume "get_prop row (m_productName fm) = Str name \<and> trim name \<noteq> [] \<and>
    get_prop row (m_currentPrice fm) = Str cell \<and> strip_price cell \<noteq> [] \<and>
    isNaN (parseFloat (strip_price cell))"
  with row_step_named[of row fm name cell acc index]
  show "row_step fm acc row index =
        Inr (acc\<lparr>errors := errors acc @ [invalid_price_message (index + 2) cell]\<rparr>)"
    by (simp add: isNaN_def)
next
  have "trim (js ''Widget'') \<noteq> []" by (simp add: trim_widget)
  from two_column_step[OF this, of acc "js ''N/A''" 0]
  show "row_step two_column_mapping acc (two_column_row (js ''Widget'') (js ''N/A'')) 0 =
     Inr (acc\<lparr>errors := errors acc @ [js ''Row 2: Price is missing.'']\<rparr>)"
    by (simp only: strip_price_NA price_missing_row_2 simp_thms if_True)
next
  show "row_step two_column_mapping acc (two_column_row [] (js ''19.99'')) 0 = Inr acc"
    by (rule row_step_skip)
       (simp add: two_column_mapping_simps two_column_row_get trim_def)
qed

theorem row_step_skip_or_error_witness:
  "row_step two_column_mapping \<lparr>validProducts = [], errors = []\<rparr>
     (two_column_row (js ''  '') (js ''19.99'')) 0 = Inr \<lparr>validProducts = [], errors = []\<rparr> \<and>
   row_step two_column_mapping \<lparr>validProducts = [], errors = []\<rparr>
     (two_column_row (js ''Widget'') (js ''N/A'')) 0 =
       Inr \<lparr>validProducts = [], errors = [js ''Row 2: Price is missing.'']\<rparr> \<and>
   row_step two_column_mapping \<lparr>validProducts = [], errors = []\<rparr>
     (two_column_row (js ''Widget'') (js ''-'')) 1 =
       Inr \<lparr>validProducts = [], errors = [js ''Row 3: Invalid price value \"-\".'']\<rparr>"
proof -
  let ?fm = two_column_mapping
  let ?acc = "\<lparr>validProducts = [], errors = []\<rparr>"
  have blank: "get_prop (two_column_row (js ''  '') (js ''19.99'')) (m_productName ?fm) = Undefined \<or>
      (\<exists>name. get_prop (two_column_row (js ''  '') (js ''19.99'')) (m_productName ?fm) = Str name \<and>
         trim name = [])"
    by (simp add: two_column_mapping_simps two_column_row_get trim_spaces)
  have na: "get_prop (two_column_row (js ''Widget'') (js ''N/A'')) (m_productName ?fm) =
        Str (js ''Widget'') \<and> trim (js ''Widget'') \<noteq> [] \<and>
      (get_prop (two_column_row (js ''Widget'') (js ''N/A'')) (m_currentPrice ?fm) = Undefined \<or>
       (\<exists>cell. get_prop (two_column_row (js ''Widget'') (js ''N/A'')) (m_currentPrice ?fm) = Str cell \<and>
          strip_price cell = []))"
    by (simp add: two_column_mapping_simps two_column_row_get trim_widget strip_price_NA)
  have bad: "get_prop (two_column_row (js ''Widget'') (js ''-'')) (m_productName ?fm) =
        Str (js ''Widget'') \<and> trim (js ''Widget'') \<noteq> [] \<and>
      get_prop (two_column_row (js ''Widget'') (js ''-'')) (m_currentPrice ?fm) = Str (js ''-'') \<and>
      strip_price (js ''-'') \<noteq> [] \<and> isNaN (parseFloat (strip_price (js ''-'')))"
    by (simp add: two_column_mapping_simps two_column_row_get trim_widget strip_price_minus
        parseFloat_minus isNaN_def)
  have m2: "price_missing_message (0 + 2) = js ''Row 2: Price is missing.''"
    by (rule price_missing_row_2)
  have m3: "invalid_price_message (1 + 2) (js ''-'') = js ''Row 3: Invalid price value \"-\".''"
    by (simp add: invalid_price_message_def js_simps)
  show ?thesis
    using row_step_skip_or_error[of "two_column_row (js ''  '') (js ''19.99'')" ?fm ?acc 0]
      row_step_skip_or_error[of "two_column_row (js ''Widget'') (js ''N/A'')" ?fm ?acc 0
        "js ''Widget''"]
      row_step_skip_or_error[of "two_column_row (js ''Widget'') (js ''-'')" ?fm ?acc 1
        "js ''Widget''" "js ''-''"]
      blank na bad
    by (simp only: m2 m3) simp
qed

lemma not_numeric_literal_Nil: "\<not> is_numeric_literal []"
  by (simp add: is_numeric_literal_def is_unsigned_literal_def)

lemma longest_19_99_50: "longest_numeric_prefix (js ''19.99.50'') = Some (js ''19.99'')"
  by (simp add: longest_numeric_prefix_scan numeric_prefix_def js_simps char_defs is_digit_def)

lemma longest_1_2: "longest_numeric_prefix (js ''1-2'') = Some (js ''1'')"
  by (simp add: longest_numeric_prefix_scan numeric_prefix_def js_simps char_defs is_digit_def)

lemma literal_value_19_99: "literal_value (js ''19.99'') = 1999 / 100"
  by (simp add: literal_value_def js_simps char_defs is_digit_def digits_val_def)

lemma literal_value_1: "literal_value (js ''1'') = 1"
  by (simp add: literal_value_def js_simps char_defs is_digit_def digits_val_def)

lemma to_number_19_99: "to_number (1999 / 100) = Val (1999 / 100)"
  by (simp add: to_number_def)

lemma to_number_1: "to_number 1 = Val 1"
  by (simp add: to_number_def)

lemma strip_price_id_19_99_50: "strip_price (js ''19.99.50'') = js ''19.99.50''"
  by (simp add: strip_price_def is_price_char_def is_digit_def js_simps char_defs)

lemma strip_price_id_1_2: "strip_price (js ''1-2'') = js ''1-2''"
  by (simp add: strip_price_def is_price_char_def is_digit_def js_simps char_defs)

text \<open>
  C10. When the stripped price cell starts with a numeric literal, whatever follows it,
  the row is accepted: no row error is recorded and the product's price is the value of
  the longest numeric prefix of the stripped cell, because \<open>parseFloat\<close> reads the longest
  prefix that is a number. The value is the Number of that prefix: the decimal it writes
  whenever that is within the range of the doubles. For \<open>19.99.50\<close> the prefix is \<open>19.99\<close>
  and the price 19.99, for \<open>1-2\<close> the prefix is \<open>1\<close> and the price 1.
\<close>

theorem row_step_numeric_prefix:
  "(get_prop row (m_productName fm) = Str name \<and> trim name \<noteq> [] \<and>
    get_prop row (m_currentPrice fm) = Str cell \<and>
    prefix p (strip_price cell) \<and> is_numeric_literal p \<longrightarrow>
      (\<exists>q. longest_numeric_prefix (strip_price cell) = Some q \<and> prefix p q \<and>
           row_step fm acc row index =
             Inr (acc\<lparr>validProducts := validProducts acc @
               [\<lparr>productName = name,
                 currentPrice = to_number (literal_value q),
                 userProductUrl =
                   (if truthy (get_prop row (m_userProductUrl fm))
                    then get_prop row (m_userProductUrl fm) else Str []),
                 competitorUrls =
                   filter truthy (map (get_prop row) (m_competitorUrls fm))\<rparr>]\<rparr>) \<and>
           (\<bar>literal_value q\<bar> < 2 ^ 1024 - 2 ^ 970 \<longrightarrow>
              to_number (literal_value q) = Val (literal_value q)))) \<and>
   longest_numeric_prefix (js ''19.99.50'') = Some (js ''19.99'') \<and>
   literal_value (js ''19.99'') = 1999 / 100 \<and>
   to_number (1999 / 100) = Val (1999 / 100) \<and>
   longest_numeric_prefix (js ''1-2'') = Some (js ''1'') \<and>
   literal_value (js ''1'') = 1 \<and>
   to_number 1 = Val 1"
proof (intro conjI impI)
  assume a: "get_prop row (m_productName fm) = Str name \<and> trim name \<noteq> [] \<and>
    get_prop row (m_currentPrice fm) = Str cell \<and>
    prefix p (strip_price cell) \<and> is_numeric_literal p"
  let ?s = "strip_price cell"
  from a numeric_prefix_complete[of p ?s] obtain q where
    q: "numeric_prefix ?s = Some q" "prefix p q" by auto
  then have l: "longest_numeric_prefix ?s = Some q"
    by (simp add: longest_numeric_prefix_scan)
  from a have "p \<noteq> []" using not_numeric_literal_Nil by auto
  with a have ne: "?s \<noteq> []" by auto
  have pf: "parseFloat ?s = to_number (literal_value q)"
    using parseFloat_longest_prefix[OF strip_price_chars, of cell] l by simp
  from a have "row_step fm acc row index =
      Inr (acc\<lparr>validProducts := validProducts acc @
               [\<lparr>productName = name,
                 currentPrice = to_number (literal_value q),
                 userProductUrl =
                   (if truthy (get_prop row (m_userProductUrl fm))
                    then get_prop row (m_userProductUrl fm) else Str []),
                 competitorUrls =
                   filter truthy (map (get_prop row) (m_competitorUrls fm))\<rparr>]\<rparr>)"
    using row_step_named[of row fm name cell acc index] ne pf
    by (simp add: to_number_not_NaN)
  with l q(2) show "\<exists>q. longest_numeric_prefix ?s = Some q \<and> prefix p q \<and>
           row_step fm acc row index =
             Inr (acc\<lparr>validProducts := validProducts acc @
               [\<lparr>productName = name,
                 currentPrice = to_number (literal_value q),
                 userProductUrl =
                   (if truthy (get_prop row (m_userProductUrl fm))
                    then get_prop row (m_userProductUrl fm) else Str []),
                 competitorUrls =
                   filter truthy (map (get_prop row) (m_competitorUrls fm))\<rparr>]\<rparr>) \<and>
           (\<bar>literal_value q\<bar> < 2 ^ 1024 - 2 ^ 970 \<longrightarrow>
              to_number (literal_value q) = Val (literal_value q))"
    using to_number_finite[of "literal_value q"] by blast
qed (rule longest_19_99_50 literal_value_19_99 longest_1_2 literal_value_1
       to_number_19_99 to_number_1)+

theorem row_step_numeric_prefix_witness:
  "prefix (js ''19.99'') (strip_price (js ''19.99.50'')) \<and> is_numeric_literal (js ''19.99'') \<and>
   row_step two_column_mapping \<lparr>validProducts = [], errors = []\<rparr>
     (two_column_row (js ''Widget'') (js ''19.99.50'')) 0 =
     Inr \<lparr>validProducts =
            [\<lparr>productName = js ''Widget'', currentPrice = Val (1999 / 100),
              userProductUrl = Str [], competitorUrls = []\<rparr>],
          errors = []\<rparr> \<and>
   prefix (js ''1'') (strip_price (js ''1-2'')) \<and> is_numeric_literal (js ''1'') \<and>
   row_step two_column_mapping \<lparr>validProducts = [], errors = []\<rparr>
     (two_column_row (js ''Widget'') (js ''1-2'')) 0 =
     Inr \<lparr>validProducts =
            [\<lparr>productName = js ''Widget'', currentPrice = Val 1,
              userProductUrl = Str [], competitorUrls = []\<rparr>],
          errors = []\<rparr>"
proof -
  let ?fm = two_column_mapping
  let ?acc = "\<lparr>validProducts = [], errors = []\<rparr>"
  let ?r1 = "two_column_row (js ''Widget'') (js ''19.99.50'')"
  let ?r2 = "two_column_row (js ''Widget'') (js ''1-2'')"
  have p1: "prefix (js ''19.99'') (strip_price (js ''19.99.50''))"
    by (simp only: strip_price_id_19_99_50) (simp add: js_simps)
  have p2: "prefix (js ''1'') (strip_price (js ''1-2''))"
    by (simp only: strip_price_id_1_2) (simp add: js_simps)
  have n1: "is_numeric_literal (js ''19.99'')"
    by (simp add: is_numeric_literal_def is_unsigned_literal_def js_simps char_defs is_digit_def)
  have n2: "is_numeric_literal (js ''1'')"
    by (simp add: is_numeric_literal_def is_unsigned_literal_def js_simps char_defs is_digit_def)
  have h1: "get_prop ?r1 (m_productName ?fm) = Str (js ''Widget'') \<and> trim (js ''Widget'') \<noteq> [] \<and>
      get_prop ?r1 (m_currentPrice ?fm) = Str (js ''19.99.50'') \<and>
      prefix (js ''19.99'') (strip_price (js ''19.99.50'')) \<and> is_numeric_literal (js ''19.99'')"
    using p1 n1 by (simp add: two_column_mapping_simps two_column_row_get trim_widget)
  have h2: "get_prop ?r2 (m_productName ?fm) = Str (js ''Widget'') \<and> trim (js ''Widget'') \<noteq> [] \<and>
      get_prop ?r2 (m_currentPrice ?fm) = Str (js ''1-2'') \<and>
      prefix (js ''1'') (strip_price (js ''1-2'')) \<and> is_numeric_literal (js ''1'')"
    using p2 n2 by (simp add: two_column_mapping_simps two_column_row_get trim_widget)
  have u: "get_prop ?r1 [] = Undefined" "get_prop ?r2 [] = Undefined"
    by (simp_all add: two_column_row_get)
  from row_step_numeric_prefix[of ?r1 ?fm "js ''Widget''" "js ''19.99.50''" "js ''19.99''" ?acc 0] h1
  have s1: "row_step ?fm ?acc ?r1 0 =
     Inr \<lparr>validProducts =
            [\<lparr>productName = js ''Widget'', currentPrice = Val (1999 / 100),
              userProductUrl = Str [], competitorUrls = []\<rparr>],
          errors = []\<rparr>"
    by (auto simp: strip_price_id_19_99_50 longest_19_99_50 literal_value_19_99 u
        two_column_mapping_simps truthy_def to_number_19_99)
  from row_step_numeric_prefix[of ?r2 ?fm "js ''Widget''" "js ''1-2''" "js ''1''" ?acc 0] h2
  have s2: "row_step ?fm ?acc ?r2 0 =
     Inr \<lparr>validProducts =
            [\<lparr>productName = js ''Widget'', currentPrice = Val 1,
              userProductUrl = Str [], competitorUrls = []\<rparr>],
          errors = []\<rparr>"
    by (auto simp: strip_price_id_1_2 longest_1_2 literal_value_1 u
        two_column_mapping_simps truthy_def to_number_1)
  from p1 n1 s1 p2 n2 s2 show ?thesis by blast
qed

section \<open>Submission: claims\<close>

lemma sublist_join: "e \<in> set es \<Longrightarrow> sublist e (join sep es)"
proof (induction sep es rule: join.induct)
  case (1 sep)
  then show ?case by simp
next
  case (2 sep x)
  then show ?case by simp
next
  case (3 sep x y ys)
  show ?case
  proof (cases "e = x")
    case True
    then show ?thesis by simp
  next
    case False
    with 3 have "sublist e (join sep (y # ys))" by simp
    then obtain ps ss where "join sep (y # ys) = ps @ e @ ss" by (auto simp: sublist_def)
    then have "join sep (x # y # ys) = (x @ sep @ ps) @ e @ ss" by simp
    then show ?thesis unfolding sublist_def by blast
  qed
qed

lemma handleSubmit_csv:
  assumes "\<not> isLoading st" "inputMode st = CsvMode" "csvFile st"
    "m_productName (fieldMapping st) \<noteq> []" "m_currentPrice (fieldMapping st) \<noteq> []"
  shows "handleSubmit st =
     (case reduce_rows (fieldMapping st) \<lparr>validProducts = [], errors = []\<rparr> 0 (csvData st) of
        Inl e \<Rightarrow>
          \<lparr>shown = Some (case e of Error m \<Rightarrow> Text m | TypeError \<Rightarrow> TypeErrorMessage),
           dispatched = None\<rparr>
      | Inr acc \<Rightarrow>
          if validProducts acc = [] then
            \<lparr>shown = Some (Text (js ''Analysis failed. '' @
               (if errors acc \<noteq> [] then join (js '' '') (errors acc)
                else js ''The CSV contains no rows that could be analyzed.''))),
             dispatched = None\<rparr>
          else
            \<lparr>shown =
               (if errors acc \<noteq> [] then
                  Some (Text (js ''Warning: Skipped '' @ show_nat (length (errors acc))
                    @ js '' invalid rows. Reasons: '' @ join (js '' '') (errors acc)))
                else None),
             dispatched = Some (CsvRequest (validProducts acc))\<rparr>)"
  using assms by (simp add: handleSubmit_def)

lemma csv_state_simps:
  "isLoading (csv_state data fm) = False" "inputMode (csv_state data fm) = CsvMode"
  "csvFile (csv_state data fm) = True" "csvData (csv_state data fm) = data"
  "fieldMapping (csv_state data fm) = fm" "csvError (csv_state data fm) = None"
  by (simp_all add: csv_state_def)

lemma invalid_rows_reduce:
  "reduce_rows two_column_mapping \<lparr>validProducts = [], errors = []\<rparr> 0
     [two_column_row (js ''Widget'') (js ''N/A''), two_column_row (js ''Gadget'') (js ''-'')] =
   Inr \<lparr>validProducts = [],
        errors = [js ''Row 2: Price is missing.'', js ''Row 3: Invalid price value \"-\".'']\<rparr>"
proof -
  have w: "trim (js ''Widget'') \<noteq> []" by (simp add: trim_widget)
  have g: "trim (js ''Gadget'') \<noteq> []" by (simp add: trim_def is_ws_def js_simps)
  have m3: "invalid_price_message (Suc 0 + 2) (js ''-'') = js ''Row 3: Invalid price value \"-\".''"
    by (simp add: invalid_price_message_def js_simps)
  have s1: "row_step two_column_mapping \<lparr>validProducts = [], errors = []\<rparr>
      (two_column_row (js ''Widget'') (js ''N/A'')) 0 =
      Inr \<lparr>validProducts = [], errors = [js ''Row 2: Price is missing.'']\<rparr>"
    using two_column_step[OF w, of "\<lparr>validProducts = [], errors = []\<rparr>" "js ''N/A''" 0]
    by (simp only: strip_price_NA price_missing_row_2 simp_thms if_True) simp
  have s2: "row_step two_column_mapping
      \<lparr>validProducts = [], errors = [js ''Row 2: Price is missing.'']\<rparr>
      (two_column_row (js ''Gadget'') (js ''-'')) (Suc 0) =
      Inr \<lparr>validProducts = [],
        errors = [js ''Row 2: Price is missing.'', js ''Row 3: Invalid price value \"-\".'']\<rparr>"
    using two_column_step[OF g,
        of "\<lparr>validProducts = [], errors = [js ''Row 2: Price is missing.'']\<rparr>" "js ''-''" "Suc 0"]
    by (simp only: strip_price_minus parseFloat_minus m3) simp
  show ?thesis by (simp add: s1 s2)
qed

text \<open>
  C4. When the reduction of a CSV submission ends with an empty list of valid products,
  the form shows \<open>Analysis failed.\<close> followed by the row errors joined by spaces, so
  that every row error's text is part of the message, or by the message that the CSV
  holds no rows that could be analyzed when there is no row error; \<open>onAnalyze\<close> is not
  called.
\<close>

theorem handleSubmit_no_valid_rows:
  "\<not> isLoading st \<and> inputMode st = CsvMode \<and> csvFile st \<and>
   m_productName (fieldMapping st) \<noteq> [] \<and> m_currentPrice (fieldMapping st) \<noteq> [] \<and>
   reduce_rows (fieldMapping st) \<lparr>validProducts = [], errors = []\<rparr> 0 (csvData st) = Inr acc \<and>
   validProducts acc = [] \<longrightarrow>
     handleSubmit st =
       \<lparr>shown = Some (Text (js ''Analysis failed. '' @
          (if errors acc \<noteq> [] then join (js '' '') (errors acc)
           else js ''The CSV contains no rows that could be analyzed.''))),
        dispatched = None\<rparr> \<and>
     (\<forall>e \<in> set (errors acc).
        sublist e (js ''Analysis failed. '' @ join (js '' '') (errors acc)))"
proof (intro impI conjI ballI)
  assume a: "\<not> isLoading st \<and> inputMode st = CsvMode \<and> csvFile st \<and>
   m_productName (fieldMapping st) \<noteq> [] \<and> m_currentPrice (fieldMapping st) \<noteq> [] \<and>
   reduce_rows (fieldMapping st) \<lparr>validProducts = [], errors = []\<rparr> 0 (csvData st) = Inr acc \<and>
   validProducts acc = []"
  then show "handleSubmit st =
       \<lparr>shown = Some (Text (js ''Analysis failed. '' @
          (if errors acc \<noteq> [] then join (js '' '') (errors acc)
           else js ''The CSV contains no rows that could be analyzed.''))),
        dispatched = None\<rparr>"
    using handleSubmit_csv[of st] by simp
next
  fix e assume "e \<in> set (errors acc)"
  then have "sublist e (join (js '' '') (errors acc))" by (rule sublist_join)
  then obtain ps ss where "join (js '' '') (errors acc) = ps @ e @ ss"
    by (auto simp: sublist_def)
  then have "js ''Analysis failed. '' @ join (js '' '') (errors acc) =
      (js ''Analysis failed. '' @ ps) @ e @ ss" by simp
  then show "sublist e (js ''Analysis failed. '' @ join (js '' '') (errors acc))"
    unfolding sublist_def by blast
qed

theorem handleSubmit_no_valid_rows_witness:
  "handleSubmit (csv_state
     [two_column_row (js ''Widget'') (js ''N/A''), two_column_row (js ''Gadget'') (js ''-'')]
     two_column_mapping) =
     \<lparr>shown = Some (Text
        (js ''Analysis failed. Row 2: Price is missing. Row 3: Invalid price value \"-\".'')),
      dispatched = None\<rparr> \<and>
   sublist (js ''Row 2: Price is missing.'')
     (js ''Analysis failed. Row 2: Price is missing. Row 3: Invalid price value \"-\".'') \<and>
   sublist (js ''Row 3: Invalid price value \"-\".'')
     (js ''Analysis failed. Row 2: Price is missing. Row 3: Invalid price value \"-\".'') \<and>
   handleSubmit (csv_state [] two_column_mapping) =
     \<lparr>shown = Some (Text
        (js ''Analysis failed. The CSV contains no rows that could be analyzed.'')),
      dispatched = None\<rparr>"
proof -
  let ?st = "csv_state
     [two_column_row (js ''Widget'') (js ''N/A''), two_column_row (js ''Gadget'') (js ''-'')]
     two_column_mapping"
  let ?acc = "\<lparr>validProducts = [],
        errors = [js ''Row 2: Price is missing.'', js ''Row 3: Invalid price value \"-\".'']\<rparr>"
  have h: "\<not> isLoading ?st \<and> inputMode ?st = CsvMode \<and> csvFile ?st \<and>
     m_productName (fieldMapping ?st) \<noteq> [] \<and> m_currentPrice (fieldMapping ?st) \<noteq> [] \<and>
     reduce_rows (fieldMapping ?st) \<lparr>validProducts = [], errors = []\<rparr> 0 (csvData ?st) = Inr ?acc \<and>
     validProducts ?acc = []"
    by (simp add: csv_state_simps two_column_mapping_simps invalid_rows_reduce
        del: reduce_rows.simps)
  let ?emp = "csv_state [] two_column_mapping"
  let ?none = "\<lparr>validProducts = [], errors = []\<rparr>"
  have h0: "\<not> isLoading ?emp \<and> inputMode ?emp = CsvMode \<and> csvFile ?emp \<and>
     m_productName (fieldMapping ?emp) \<noteq> [] \<and> m_currentPrice (fieldMapping ?emp) \<noteq> [] \<and>
     reduce_rows (fieldMapping ?emp) \<lparr>validProducts = [], errors = []\<rparr> 0 (csvData ?emp) = Inr ?none \<and>
     validProducts ?none = []"
    by (simp add: csv_state_simps two_column_mapping_simps)
  note r = handleSubmit_no_valid_rows[of ?st ?acc, THEN mp, OF h]
  note r0 = handleSubmit_no_valid_rows[of ?emp ?none, THEN mp, OF h0]
  from r have 1: "handleSubmit ?st =
     \<lparr>shown = Some (Text
        (js ''Analysis failed. Row 2: Price is missing. Row 3: Invalid price value \"-\".'')),
      dispatched = None\<rparr>"
    by (simp add: js_append[symmetric])
  from r have 2: "sublist (js ''Row 2: Price is missing.'')
     (js ''Analysis failed. Row 2: Price is missing. Row 3: Invalid price value \"-\".'')"
    and 3: "sublist (js ''Row 3: Invalid price value \"-\".'')
     (js ''Analysis failed. Row 2: Price is missing. Row 3: Invalid price value \"-\".'')"
    by (simp_all add: js_append[symmetric])
  from r0 have 4: "handleSubmit ?emp =
     \<lparr>shown = Some (Text
        (js ''Analysis failed. The CSV contains no rows that could be analyzed.'')),
      dispatched = None\<rparr>"
    by (simp add: js_append[symmetric])
  from 1 2 3 4 show ?thesis by blast
qed

lemma names_required_fields:
  "sublist (js ''Product Name'')
     (js ''You must map columns for 'Product Name' and 'Current Price'.'')"
  "sublist (js ''Current Price'')
     (js ''You must map columns for 'Product Name' and 'Current Price'.'')"
proof -
  have "js ''You must map columns for 'Product Name' and 'Current Price'.'' =
      (js ''You must map columns for '' @ [0x27]) @ js ''Product Name'' @
      ([0x27] @ js '' and '' @ [0x27] @ js ''Current Price'' @ [0x27] @ js ''.'')"
    by (simp add: js_simps)
  then show "sublist (js ''Product Name'')
     (js ''You must map columns for 'Product Name' and 'Current Price'.'')"
    unfolding sublist_def by blast
  have "js ''You must map columns for 'Product Name' and 'Current Price'.'' =
      (js ''You must map columns for 'Product Name' and '' @ [0x27]) @ js ''Current Price'' @
      ([0x27] @ js ''.'')"
    by (simp add: js_simps)
  then show "sublist (js ''Current Price'')
     (js ''You must map columns for 'Product Name' and 'Current Price'.'')"
    unfolding sublist_def by blast
qed

text \<open>
  C9, as stated, for every field mapping with an empty product-name or price column:
  the message shown names the two required fields. It fails when no file is selected,
  which is the state of the form when the CSV tab is first opened: the guard on the file
  comes first and its message asks for a file.
\<close>

theorem handleSubmit_no_file_counterexample:
  "handleSubmit
     \<lparr>isLoading = False, inputMode = CsvMode, st_userProductUrl = [], st_competitorUrls = [],
      csvFile = False, csvError = None, csvData = [],
      fieldMapping = \<lparr>m_productName = [], m_currentPrice = [], m_userProductUrl = [],
                      m_competitorUrls = []\<rparr>\<rparr> =
     \<lparr>shown = Some (Text (js ''Please select a CSV file.'')), dispatched = None\<rparr> \<and>
   \<not> sublist (js ''Product Name'') (js ''Please select a CSV file.'')"
  by (simp add: handleSubmit_def js_simps sublist_code)

text \<open>
  C9, amended. With an empty product-name or price column a CSV submission never calls
  \<open>onAnalyze\<close> and never looks at the rows (its outcome is the same for any row data);
  when a file is selected and no analysis is running, the message shown is the one that
  names \<open>Product Name\<close> and \<open>Current Price\<close>.
\<close>

theorem handleSubmit_mapping_incomplete:
  "(inputMode st = CsvMode \<and>
    (m_productName (fieldMapping st) = [] \<or> m_currentPrice (fieldMapping st) = []) \<longrightarrow>
      dispatched (handleSubmit st) = None \<and>
      handleSubmit (st\<lparr>csvData := data\<rparr>) = handleSubmit st) \<and>
   (inputMode st = CsvMode \<and> \<not> isLoading st \<and> csvFile st \<and>
    (m_productName (fieldMapping st) = [] \<or> m_currentPrice (fieldMapping st) = []) \<longrightarrow>
      handleSubmit st =
        \<lparr>shown = Some (Text
           (js ''You must map columns for 'Product Name' and 'Current Price'.'')),
         dispatched = None\<rparr>) \<and>
   sublist (js ''Product Name'')
     (js ''You must map columns for 'Product Name' and 'Current Price'.'') \<and>
   sublist (js ''Current Price'')
     (js ''You must map columns for 'Product Name' and 'Current Price'.'')"
proof (intro conjI impI)
  assume a: "inputMode st = CsvMode \<and>
    (m_productName (fieldMapping st) = [] \<or> m_currentPrice (fieldMapping st) = [])"
  then show "dispatched (handleSubmit st) = None"
    by (auto simp: handleSubmit_def)
  from a show "handleSubmit (st\<lparr>csvData := data\<rparr>) = handleSubmit st"
    by (auto simp: handleSubmit_def)
next
  assume "inputMode st = CsvMode \<and> \<not> isLoading st \<and> csvFile st \<and>
    (m_productName (fieldMapping st) = [] \<or> m_currentPrice (fieldMapping st) = [])"
  then show "handleSubmit st =
        \<lparr>shown = Some (Text
           (js ''You must map columns for 'Product Name' and 'Current Price'.'')),
         dispatched = None\<rparr>"
    by (auto simp: handleSubmit_def)
qed (rule names_required_fields)+

theorem handleSubmit_mapping_incomplete_witness:
  "handleSubmit (csv_state [two_column_row (js ''Widget'') (js ''$19.99'')]
      \<lparr>m_productName = [], m_currentPrice = js ''currentPrice'', m_userProductUrl = [],
       m_competitorUrls = []\<rparr>) =
     \<lparr>shown = Some (Text
        (js ''You must map columns for 'Product Name' and 'Current Price'.'')),
      dispatched = None\<rparr> \<and>
   handleSubmit (csv_state []
      \<lparr>m_productName = [], m_currentPrice = js ''currentPrice'', m_userProductUrl = [],
       m_competitorUrls = []\<rparr>) =
     \<lparr>shown = Some (Text
        (js ''You must map columns for 'Product Name' and 'Current Price'.'')),
      dispatched = None\<rparr>"
proof -
  let ?fm = "\<lparr>m_productName = [], m_currentPrice = js ''currentPrice'', m_userProductUrl = [],
       m_competitorUrls = []\<rparr>"
  let ?s = "csv_state [two_column_row (js ''Widget'') (js ''$19.99'')] ?fm"
  have h: "inputMode ?s = CsvMode \<and> \<not> isLoading ?s \<and> csvFile ?s \<and>
    (m_productName (fieldMapping ?s) = [] \<or> m_currentPrice (fieldMapping ?s) = [])"
    by (simp add: csv_state_simps)
  have g: "inputMode ?s = CsvMode \<and>
    (m_productName (fieldMapping ?s) = [] \<or> m_currentPrice (fieldMapping ?s) = [])"
    by (simp add: csv_state_simps)
  have d: "?s\<lparr>csvData := []\<rparr> = csv_state [] ?fm"
    by (simp add: csv_state_def)
  note t = handleSubmit_mapping_incomplete[of ?s "[]"]
  from t h have 1: "handleSubmit ?s =
     \<lparr>shown = Some (Text
        (js ''You must map columns for 'Product Name' and 'Current Price'.'')),
      dispatched = None\<rparr>"
    by blast
  from t g have "handleSubmit (?s\<lparr>csvData := []\<rparr>) = handleSubmit ?s"
    by blast
  with 1 d show ?thesis by simp
qed

section \<open>Competitor columns and the product invariant: claims\<close>

lemma competitor_row_get:
  "get_prop competitor_row (js ''productName'') = Str (js ''Widget'')"
  "get_prop competitor_row (js ''currentPrice'') = Str (js ''5'')"
  "get_prop competitor_row (js ''competitorUrl_1'') = Str (js ''https://a.example'')"
  "get_prop competitor_row (js ''competitorUrl_2'') = Str (js ''https://b.example'')"
  "get_prop competitor_row [] = Undefined"
  by (simp_all add: competitor_row_def competitor_headers_def set_prop_def get_prop_def
      object_prototype_keys_def js_simps)

lemma toggled_twice:
  "handleCompetitorHeaderToggle (js ''competitorUrl_1'')
     (handleCompetitorHeaderToggle (js ''competitorUrl_2'') two_column_mapping) =
   \<lparr>m_productName = js ''productName'', m_currentPrice = js ''currentPrice'',
    m_userProductUrl = [], m_competitorUrls = [js ''competitorUrl_2'', js ''competitorUrl_1'']\<rparr>"
  by (simp add: handleCompetitorHeaderToggle_def two_column_mapping_def)

lemma strip_price_5: "strip_price (js ''5'') = js ''5''"
  by (simp add: strip_price_def is_price_char_def is_digit_def js_simps char_defs)

lemma parseFloat_5: "parseFloat (js ''5'') = Val 5"
  by (simp add: parseFloat_eval)

lemma row_step_product:
  assumes "row_step fm acc row index = Inr acc'" "validProducts acc' \<noteq> validProducts acc"
  shows "\<exists>name. get_prop row (m_productName fm) = Str name \<and> trim name \<noteq> [] \<and>
           get_prop row (m_currentPrice fm) \<noteq> Inherited \<and>
           parseFloat (strip_price (case get_prop row (m_currentPrice fm) of Str s \<Rightarrow> s | _ \<Rightarrow> []))
             \<noteq> NaN \<and>
           acc' = acc\<lparr>validProducts := validProducts acc @
             [\<lparr>productName = name,
               currentPrice = parseFloat (strip_price
                 (case get_prop row (m_currentPrice fm) of Str s \<Rightarrow> s | _ \<Rightarrow> [])),
               userProductUrl =
                 (if truthy (get_prop row (m_userProductUrl fm))
                  then get_prop row (m_userProductUrl fm) else Str []),
               competitorUrls =
                 filter truthy (map (get_prop row) (m_competitorUrls fm))\<rparr>]\<rparr>"
  using assms
  by (auto simp: row_step_def Let_def isNaN_def split: jsval.splits if_splits)

lemma own_cell_values:
  "\<forall>h \<in> set cols. row h \<noteq> None \<Longrightarrow>
   filter truthy (map (get_prop row) cols) =
     concat (map (\<lambda>h. case row h of None \<Rightarrow> [] | Some v \<Rightarrow> if v = [] then [] else [Str v])
       cols)"
  by (induction cols) (auto simp: get_prop_def truthy_def split: option.splits)

lemma competitor_row_own:
  "competitor_row (js ''competitorUrl_1'') = Some (js ''https://a.example'')"
  "competitor_row (js ''competitorUrl_2'') = Some (js ''https://b.example'')"
  by (simp_all add: competitor_row_def competitor_headers_def set_prop_def js_simps)

text \<open>
  C6, as stated: the competitor URLs of a validated row come in the order of the columns
  in the file, whatever the order of the toggles. It fails when the second competitor
  column is ticked before the first: the product lists the cell of the second column
  first.
\<close>

theorem competitor_urls_toggle_order_counterexample:
  "row_step
     (handleCompetitorHeaderToggle (js ''competitorUrl_1'')
        (handleCompetitorHeaderToggle (js ''competitorUrl_2'') two_column_mapping))
     \<lparr>validProducts = [], errors = []\<rparr> competitor_row 0 =
     Inr \<lparr>validProducts =
            [\<lparr>productName = js ''Widget'', currentPrice = Val 5, userProductUrl = Str [],
              competitorUrls = [Str (js ''https://b.example''), Str (js ''https://a.example'')]\<rparr>],
          errors = []\<rparr> \<and>
   spec_competitor_urls competitor_headers
     (handleCompetitorHeaderToggle (js ''competitorUrl_1'')
        (handleCompetitorHeaderToggle (js ''competitorUrl_2'') two_column_mapping))
     competitor_row =
     [Str (js ''https://a.example''), Str (js ''https://b.example'')]"
proof -
  let ?fm = "\<lparr>m_productName = js ''productName'', m_currentPrice = js ''currentPrice'',
    m_userProductUrl = [], m_competitorUrls = [js ''competitorUrl_2'', js ''competitorUrl_1'']\<rparr>"
  have 1: "get_prop competitor_row (m_productName ?fm) = Str (js ''Widget'')"
    by (simp add: competitor_row_get)
  have 2: "trim (js ''Widget'') \<noteq> []" by (simp add: trim_widget)
  have 3: "get_prop competitor_row (m_currentPrice ?fm) = Str (js ''5'') \<or>
      get_prop competitor_row (m_currentPrice ?fm) = Undefined \<and> js ''5'' = []"
    by (simp add: competitor_row_get)
  have a: "row_step ?fm \<lparr>validProducts = [], errors = []\<rparr> competitor_row 0 =
     Inr \<lparr>validProducts =
            [\<lparr>productName = js ''Widget'', currentPrice = Val 5, userProductUrl = Str [],
              competitorUrls = [Str (js ''https://b.example''), Str (js ''https://a.example'')]\<rparr>],
          errors = []\<rparr>"
    unfolding row_step_named[OF 1 2 3]
    by (simp add: strip_price_5 parseFloat_5 competitor_row_get truthy_def)
  have b: "spec_competitor_urls competitor_headers ?fm competitor_row =
     [Str (js ''https://a.example''), Str (js ''https://b.example'')]"
    by (simp add: spec_competitor_urls_def competitor_headers_def competitor_row_get truthy_def)
  show ?thesis unfolding toggled_twice using a b by simp
qed

text \<open>
  C6, amended. For every validated row, \<open>competitorUrls\<close> consists of exactly the
  non-empty values read from the columns in \<open>fieldMapping.competitorUrls\<close>, in the order
  of that list, which is the order in which the columns were toggled on: a toggle
  appends a column that is not selected and removes one that is. For columns that are
  entries of the row these values are the non-empty cells.
\<close>

theorem competitor_urls_selection_order:
  "(row_step fm acc row index = Inr acc' \<and> validProducts acc' \<noteq> validProducts acc \<longrightarrow>
      (\<exists>p. validProducts acc' = validProducts acc @ [p] \<and>
           competitorUrls p = filter truthy (map (get_prop row) (m_competitorUrls fm)))) \<and>
   ((\<forall>h \<in> set (m_competitorUrls fm). row h \<noteq> None) \<longrightarrow>
      filter truthy (map (get_prop row) (m_competitorUrls fm)) =
        concat (map (\<lambda>h. case row h of None \<Rightarrow> [] | Some v \<Rightarrow> if v = [] then [] else [Str v])
          (m_competitorUrls fm))) \<and>
   (header \<notin> set (m_competitorUrls fm) \<longrightarrow>
      m_competitorUrls (handleCompetitorHeaderToggle header fm) =
        m_competitorUrls fm @ [header]) \<and>
   (header \<in> set (m_competitorUrls fm) \<longrightarrow>
      m_competitorUrls (handleCompetitorHeaderToggle header fm) =
        filter (\<lambda>h. h \<noteq> header) (m_competitorUrls fm))"
proof (intro conjI impI)
  assume "row_step fm acc row index = Inr acc' \<and> validProducts acc' \<noteq> validProducts acc"
  then show "\<exists>p. validProducts acc' = validProducts acc @ [p] \<and>
           competitorUrls p = filter truthy (map (get_prop row) (m_competitorUrls fm))"
    using row_step_product[of fm acc row index acc'] by auto
next
  assume "\<forall>h \<in> set (m_competitorUrls fm). row h \<noteq> None"
  then show "filter truthy (map (get_prop row) (m_competitorUrls fm)) =
        concat (map (\<lambda>h. case row h of None \<Rightarrow> [] | Some v \<Rightarrow> if v = [] then [] else [Str v])
          (m_competitorUrls fm))"
    by (rule own_cell_values)
next
  assume "header \<notin> set (m_competitorUrls fm)"
  then show "m_competitorUrls (handleCompetitorHeaderToggle header fm) =
        m_competitorUrls fm @ [header]"
    by (simp add: handleCompetitorHeaderToggle_def)
next
  assume "header \<in> set (m_competitorUrls fm)"
  then show "m_competitorUrls (handleCompetitorHeaderToggle header fm) =
        filter (\<lambda>h. h \<noteq> header) (m_competitorUrls fm)"
    by (simp add: handleCompetitorHeaderToggle_def)
qed

theorem competitor_urls_selection_order_witness:
  "row_step
     \<lparr>m_productName = js ''productName'', m_currentPrice = js ''currentPrice'',
      m_userProductUrl = [], m_competitorUrls = [js ''competitorUrl_2'', js ''competitorUrl_1'']\<rparr>
     \<lparr>validProducts = [], errors = []\<rparr> competitor_row 0 =
     Inr \<lparr>validProducts =
            [\<lparr>productName = js ''Widget'', currentPrice = Val 5, userProductUrl = Str [],
              competitorUrls = [Str (js ''https://b.example''), Str (js ''https://a.example'')]\<rparr>],
          errors = []\<rparr> \<and>
   (\<exists>p. [\<lparr>productName = js ''Widget'', currentPrice = Val 5, userProductUrl = Str [],
              competitorUrls = [Str (js ''https://b.example''), Str (js ''https://a.example'')]\<rparr>]
          = [] @ [p] \<and>
        competitorUrls p =
          filter truthy (map (get_prop competitor_row)
            [js ''competitorUrl_2'', js ''competitorUrl_1''])) \<and>
   competitor_row (js ''competitorUrl_2'') = Some (js ''https://b.example'') \<and>
   competitor_row (js ''competitorUrl_1'') = Some (js ''https://a.example'') \<and>
   filter truthy (map (get_prop competitor_row)
       [js ''competitorUrl_2'', js ''competitorUrl_1'']) =
     [Str (js ''https://b.example''), Str (js ''https://a.example'')] \<and>
   m_competitorUrls (handleCompetitorHeaderToggle (js ''competitorUrl_1'')
     \<lparr>m_productName = js ''productName'', m_currentPrice = js ''currentPrice'',
      m_userProductUrl = [], m_competitorUrls = [js ''competitorUrl_2'']\<rparr>) =
     [js ''competitorUrl_2'', js ''competitorUrl_1''] \<and>
   m_competitorUrls (handleCompetitorHeaderToggle (js ''competitorUrl_2'')
     \<lparr>m_productName = js ''productName'', m_currentPrice = js ''currentPrice'',
      m_userProductUrl = [], m_competitorUrls = [js ''competitorUrl_2'', js ''competitorUrl_1'']\<rparr>) =
     [js ''competitorUrl_1'']"
proof -
  let ?fm = "\<lparr>m_productName = js ''productName'', m_currentPrice = js ''currentPrice'',
    m_userProductUrl = [], m_competitorUrls = [js ''competitorUrl_2'', js ''competitorUrl_1'']\<rparr>"
  let ?fm1 = "\<lparr>m_productName = js ''productName'', m_currentPrice = js ''currentPrice'',
    m_userProductUrl = [], m_competitorUrls = [js ''competitorUrl_2'']\<rparr>"
  let ?acc = "\<lparr>validProducts = [], errors = []\<rparr>"
  let ?p = "\<lparr>productName = js ''Widget'', currentPrice = Val 5, userProductUrl = Str [],
              competitorUrls = [Str (js ''https://b.example''), Str (js ''https://a.example'')]\<rparr>"
  have 1: "get_prop competitor_row (m_productName ?fm) = Str (js ''Widget'')"
    by (simp add: competitor_row_get)
  have 2: "trim (js ''Widget'') \<noteq> []" by (simp add: trim_widget)
  have 3: "get_prop competitor_row (m_currentPrice ?fm) = Str (js ''5'') \<or>
      get_prop competitor_row (m_currentPrice ?fm) = Undefined \<and> js ''5'' = []"
    by (simp add: competitor_row_get)
  have step: "row_step ?fm ?acc competitor_row 0 = Inr \<lparr>validProducts = [?p], errors = []\<rparr>"
    unfolding row_step_named[OF 1 2 3]
    by (simp add: strip_price_5 parseFloat_5 competitor_row_get truthy_def)
  have h: "row_step ?fm ?acc competitor_row 0 = Inr \<lparr>validProducts = [?p], errors = []\<rparr> \<and>
      validProducts \<lparr>validProducts = [?p], errors = []\<rparr> \<noteq> validProducts ?acc"
    using step by simp
  have n: "js ''competitorUrl_1'' \<notin> set (m_competitorUrls ?fm1)" by simp
  have y: "js ''competitorUrl_2'' \<in> set (m_competitorUrls ?fm)" by simp
  note a = competitor_urls_selection_order[of ?fm ?acc competitor_row 0
      "\<lparr>validProducts = [?p], errors = []\<rparr>", THEN conjunct1, THEN mp, OF h]
  note b = competitor_urls_selection_order[of ?fm1 _ _ _ _ "js ''competitorUrl_1''",
      THEN conjunct2, THEN conjunct2, THEN conjunct1, THEN mp, OF n]
  note c = competitor_urls_selection_order[of ?fm _ _ _ _ "js ''competitorUrl_2''",
      THEN conjunct2, THEN conjunct2, THEN conjunct2, THEN mp, OF y]
  have o: "\<forall>h \<in> set (m_competitorUrls ?fm). competitor_row h \<noteq> None"
    by (simp add: competitor_row_own)
  note d = competitor_urls_selection_order[of ?fm _ competitor_row,
      THEN conjunct2, THEN conjunct1, THEN mp, OF o]
  have o': "competitor_row (js ''competitorUrl_2'') = Some (js ''https://b.example'')"
    "competitor_row (js ''competitorUrl_1'') = Some (js ''https://a.example'')"
    by (rule competitor_row_own)+
  from d have d': "filter truthy (map (get_prop competitor_row)
       [js ''competitorUrl_2'', js ''competitorUrl_1'']) =
     [Str (js ''https://b.example''), Str (js ''https://a.example'')]"
    by (simp add: competitor_row_own)
  from a have a': "\<exists>p. [?p] = [] @ [p] \<and>
        competitorUrls p =
          filter truthy (map (get_prop competitor_row)
            [js ''competitorUrl_2'', js ''competitorUrl_1''])"
    by simp
  from b have b': "m_competitorUrls (handleCompetitorHeaderToggle (js ''competitorUrl_1'') ?fm1) =
     [js ''competitorUrl_2'', js ''competitorUrl_1'']" by simp
  from c have c': "m_competitorUrls (handleCompetitorHeaderToggle (js ''competitorUrl_2'') ?fm) =
     [js ''competitorUrl_1'']" by simp
  from step a' o' d' b' c' show ?thesis by blast
qed

lemma reduce_rows_invariant:
  assumes "reduce_rows fm acc index rows = Inr acc'"
    and "\<forall>p \<in> set (validProducts acc). P p"
    and "\<And>row acc acc' index. row \<in> set rows \<Longrightarrow> row_step fm acc row index = Inr acc' \<Longrightarrow>
           \<forall>p \<in> set (validProducts acc). P p \<Longrightarrow> \<forall>p \<in> set (validProducts acc'). P p"
  shows "\<forall>p \<in> set (validProducts acc'). P p"
  using assms
proof (induction rows arbitrary: acc index)
  case Nil
  then show ?case by simp
next
  case (Cons row rows)
  from Cons.prems(1) obtain acc1 where
    s: "row_step fm acc row index = Inr acc1" and
    r: "reduce_rows fm acc1 (Suc index) rows = Inr acc'"
    by (auto split: sum.splits)
  have inv: "\<forall>p \<in> set (validProducts acc1). P p"
    using Cons.prems(3)[OF _ s Cons.prems(2)] by simp
  have step: "\<And>r a a' i. r \<in> set rows \<Longrightarrow> row_step fm a r i = Inr a' \<Longrightarrow>
      \<forall>p \<in> set (validProducts a). P p \<Longrightarrow> \<forall>p \<in> set (validProducts a'). P p"
    using Cons.prems(3) by (meson list.set_intros(2))
  from Cons.IH[OF r inv step] show ?case .
qed

lemma row_step_keeps:
  assumes "row_step fm acc row index = Inr acc'"
    and "\<forall>p \<in> set (validProducts acc). P p"
    and "\<And>name. get_prop row (m_productName fm) = Str name \<Longrightarrow> trim name \<noteq> [] \<Longrightarrow>
           parseFloat (strip_price
             (case get_prop row (m_currentPrice fm) of Str s \<Rightarrow> s | _ \<Rightarrow> [])) \<noteq> NaN \<Longrightarrow>
           P \<lparr>productName = name,
               currentPrice = parseFloat (strip_price
                 (case get_prop row (m_currentPrice fm) of Str s \<Rightarrow> s | _ \<Rightarrow> [])),
               userProductUrl =
                 (if truthy (get_prop row (m_userProductUrl fm))
                  then get_prop row (m_userProductUrl fm) else Str []),
               competitorUrls =
                 filter truthy (map (get_prop row) (m_competitorUrls fm))\<rparr>"
  shows "\<forall>p \<in> set (validProducts acc'). P p"
proof (cases "validProducts acc' = validProducts acc")
  case True
  with assms(2) show ?thesis by simp
next
  case False
  from row_step_product[OF assms(1) False] obtain name where
    n: "get_prop row (m_productName fm) = Str name" "trim name \<noteq> []"
      "parseFloat (strip_price
         (case get_prop row (m_currentPrice fm) of Str s \<Rightarrow> s | _ \<Rightarrow> [])) \<noteq> NaN"
    and a: "acc' = acc\<lparr>validProducts := validProducts acc @
             [\<lparr>productName = name,
               currentPrice = parseFloat (strip_price
                 (case get_prop row (m_currentPrice fm) of Str s \<Rightarrow> s | _ \<Rightarrow> [])),
               userProductUrl =
                 (if truthy (get_prop row (m_userProductUrl fm))
                  then get_prop row (m_userProductUrl fm) else Str []),
               competitorUrls =
                 filter truthy (map (get_prop row) (m_competitorUrls fm))\<rparr>]\<rparr>"
    by blast
  from assms(3)[OF n] assms(2) show ?thesis unfolding a by simp
qed

lemma trim_nonempty: "trim name \<noteq> [] \<Longrightarrow> name \<noteq> []"
  by (auto simp: trim_def)

lemma parseCsv_competitor_csv:
  "parseCsv competitor_csv = Inr (competitor_headers, [competitor_row])"
proof -
  have r: "csv_rows competitor_csv =
      [js ''productName,currentPrice,competitorUrl_1,competitorUrl_2'',
       js ''Widget,5,https://a.example,https://b.example'']"
    by (simp add: competitor_csv_def csv_rows_def eval_defs)
  have h: "map trim (split_char COMMA
        (js ''productName,currentPrice,competitorUrl_1,competitorUrl_2'')) = competitor_headers"
    by (simp add: competitor_headers_def eval_defs)
  have v: "row_values (js ''Widget,5,https://a.example,https://b.example'') =
      [js ''Widget'', js ''5'', js ''https://a.example'', js ''https://b.example'']"
    by (simp add: row_values_def eval_defs)
  show ?thesis
    by (simp add: parseCsv_def r h v competitor_row_def)
qed

lemma strip_price_neg: "strip_price (js ''-5'') = js ''-5''"
  by (simp add: strip_price_def is_price_char_def is_digit_def js_simps char_defs)

lemma parseFloat_neg: "parseFloat (js ''-5'') = Val (- 5)"
  by (simp add: parseFloat_eval)

lemma digits_val_zeros:
  "foldl (\<lambda>a c. 10 * a + (c - 0x30)) a (replicate n (0x30 :: nat)) = a * 10 ^ n"
  by (induction n arbitrary: a) simp_all

lemma digits_val_huge_price: "digits_val huge_price = 10 ^ 309"
  by (simp add: huge_price_def digits_val_def digits_val_zeros)

lemma huge_price_digits: "list_all is_digit huge_price"
  by (simp add: huge_price_def is_digit_def list_all_iff)

lemma strip_price_huge_price: "strip_price huge_price = huge_price"
  by (simp add: huge_price_def strip_price_def is_price_char_def is_digit_def)

lemma numeric_prefix_huge_price: "numeric_prefix huge_price = Some huge_price"
proof -
  have ne: "huge_price \<noteq> []" by (simp add: huge_price_def)
  from numeric_prefix_int[of "[]" huge_price "[]"] huge_price_digits ne
  obtain p where p: "numeric_prefix huge_price = Some p" "prefix huge_price p"
    by auto
  from numeric_prefix_sound[OF p(1)] have "prefix p huge_price" by simp
  with p show ?thesis by (simp add: prefix_order.antisym)
qed

text \<open>A cell of 310 digits is beyond the doubles: it parses to \<open>Infinity\<close>, which is not
  NaN.\<close>

lemma parseFloat_huge_price: "parseFloat huge_price = PosInf"
proof -
  have "list_all is_price_char huge_price"
    using strip_price_chars[of huge_price] by (simp add: strip_price_huge_price)
  then have "parseFloat huge_price = to_number (literal_value huge_price)"
    by (simp add: parseFloat_price numeric_prefix_huge_price)
  also have "literal_value huge_price = 10 ^ 309"
    using literal_value_int(1)[OF huge_price_digits] digits_val_huge_price
    by (simp add: huge_price_def)
  also have "to_number (10 ^ 309) = PosInf"
    by (simp add: to_number_def)
  finally show ?thesis .
qed

text \<open>
  C7, as stated: the price of every validated product is a finite, non-negative number.
  It fails on both counts. On the price cell \<open>-5\<close> the minus sign is kept by the stripping
  and the row is validated with the price -5. On a price cell of 310 digits (1 followed
  by 309 zeros) the parsed number is beyond the doubles and the row is validated with the
  price \<open>Infinity\<close>, since the only check on the price is \<open>isNaN\<close>.
\<close>

theorem negative_and_infinite_price_counterexample:
  "reduce_rows two_column_mapping \<lparr>validProducts = [], errors = []\<rparr> 0
     [two_column_row (js ''Widget'') (js ''-5'')] =
     Inr \<lparr>validProducts =
            [\<lparr>productName = js ''Widget'', currentPrice = Val (- 5), userProductUrl = Str [],
              competitorUrls = []\<rparr>],
          errors = []\<rparr> \<and>
   (- 5 :: rat) < 0 \<and>
   length huge_price = 310 \<and>
   reduce_rows two_column_mapping \<lparr>validProducts = [], errors = []\<rparr> 0
     [two_column_row (js ''Widget'') huge_price] =
     Inr \<lparr>validProducts =
            [\<lparr>productName = js ''Widget'', currentPrice = PosInf, userProductUrl = Str [],
              competitorUrls = []\<rparr>],
          errors = []\<rparr>"
proof -
  have w: "trim (js ''Widget'') \<noteq> []" by (simp add: trim_widget)
  from two_column_step[OF w, of "\<lparr>validProducts = [], errors = []\<rparr>" "js ''-5''" 0]
  have 1: "row_step two_column_mapping \<lparr>validProducts = [], errors = []\<rparr>
      (two_column_row (js ''Widget'') (js ''-5'')) 0 =
     Inr \<lparr>validProducts =
            [\<lparr>productName = js ''Widget'', currentPrice = Val (- 5), userProductUrl = Str [],
              competitorUrls = []\<rparr>],
          errors = []\<rparr>"
    by (simp add: strip_price_neg parseFloat_neg)
  have ne: "huge_price \<noteq> []" by (simp add: huge_price_def)
  from two_column_step[OF w, of "\<lparr>validProducts = [], errors = []\<rparr>" huge_price 0]
  have 2: "row_step two_column_mapping \<lparr>validProducts = [], errors = []\<rparr>
      (two_column_row (js ''Widget'') huge_price) 0 =
     Inr \<lparr>validProducts =
            [\<lparr>productName = js ''Widget'', currentPrice = PosInf, userProductUrl = Str [],
              competitorUrls = []\<rparr>],
          errors = []\<rparr>"
    by (simp add: strip_price_huge_price parseFloat_huge_price ne)
  have 3: "length huge_price = 310" by (simp add: huge_price_def)
  from 1 2 3 show ?thesis by simp
qed

text \<open>
  C7, amended. Every product that the normalizer validates has a product name that is
  not empty and not blank, a price that is a number other than NaN (it can be negative
  or an infinity), and competitor URLs that are all truthy; when the rows come from the parser and the
  competitor columns are headers of the file other than \<open>__proto__\<close>, every competitor URL
  is a non-empty string.
\<close>

theorem validated_product_invariant:
  "(reduce_rows fm \<lparr>validProducts = [], errors = []\<rparr> 0 rows = Inr acc \<and>
    p \<in> set (validProducts acc) \<longrightarrow>
      productName p \<noteq> [] \<and> trim (productName p) \<noteq> [] \<and> \<not> isNaN (currentPrice p) \<and>
      (\<forall>u \<in> set (competitorUrls p). truthy u)) \<and>
   (parseCsv text = Inr (headers, rows) \<and>
    set (m_competitorUrls fm) \<subseteq> set headers - {js ''__proto__''} \<and>
    reduce_rows fm \<lparr>validProducts = [], errors = []\<rparr> 0 rows = Inr acc \<and>
    p \<in> set (validProducts acc) \<longrightarrow>
      (\<forall>u \<in> set (competitorUrls p). \<exists>s. u = Str s \<and> s \<noteq> []))"
proof (intro conjI impI)
  assume a: "reduce_rows fm \<lparr>validProducts = [], errors = []\<rparr> 0 rows = Inr acc \<and>
    p \<in> set (validProducts acc)"
  let ?P = "\<lambda>p. productName p \<noteq> [] \<and> trim (productName p) \<noteq> [] \<and> \<not> isNaN (currentPrice p) \<and>
      (\<forall>u \<in> set (competitorUrls p). truthy u)"
  have "\<forall>p \<in> set (validProducts acc). ?P p"
  proof (rule reduce_rows_invariant[where P = "?P"])
    show "reduce_rows fm \<lparr>validProducts = [], errors = []\<rparr> 0 rows = Inr acc"
      using a by simp
    show "\<forall>p \<in> set (validProducts \<lparr>validProducts = [], errors = []\<rparr>). ?P p" by simp
  next
    fix row acc1 acc2 index
    assume "row_step fm acc1 row index = Inr acc2" "\<forall>p \<in> set (validProducts acc1). ?P p"
    then show "\<forall>p \<in> set (validProducts acc2). ?P p"
      by (rule row_step_keeps) (simp add: isNaN_def trim_nonempty)
  qed
  with a show "productName p \<noteq> []" "trim (productName p) \<noteq> []" "\<not> isNaN (currentPrice p)"
    "\<forall>u \<in> set (competitorUrls p). truthy u"
    by auto
next
  assume a: "parseCsv text = Inr (headers, rows) \<and>
    set (m_competitorUrls fm) \<subseteq> set headers - {js ''__proto__''} \<and>
    reduce_rows fm \<lparr>validProducts = [], errors = []\<rparr> 0 rows = Inr acc \<and>
    p \<in> set (validProducts acc)"
  let ?P = "\<lambda>p. \<forall>u \<in> set (competitorUrls p). \<exists>s. u = Str s \<and> s \<noteq> []"
  have "\<forall>p \<in> set (validProducts acc). ?P p"
  proof (rule reduce_rows_invariant[where P = "?P"])
    show "reduce_rows fm \<lparr>validProducts = [], errors = []\<rparr> 0 rows = Inr acc"
      using a by simp
    show "\<forall>p \<in> set (validProducts \<lparr>validProducts = [], errors = []\<rparr>). ?P p" by simp
  next
    fix row acc1 acc2 index
    assume row: "row \<in> set rows"
      and s: "row_step fm acc1 row index = Inr acc2" "\<forall>p \<in> set (validProducts acc1). ?P p"
    have own: "\<forall>h \<in> set (m_competitorUrls fm). \<exists>v. get_prop row h = Str v"
    proof
      fix h assume "h \<in> set (m_competitorUrls fm)"
      with a have "h \<in> set headers" "h \<noteq> js ''__proto__''" by auto
      with parseCsv_row_entry[of "text" headers rows row h] a row
      obtain v where "row h = Some v" by blast
      then show "\<exists>v. get_prop row h = Str v" by (simp add: get_prop_own)
    qed
    from s show "\<forall>p \<in> set (validProducts acc2). ?P p"
    proof (rule row_step_keeps)
      show "?P \<lparr>productName = name,
               currentPrice = parseFloat (strip_price
                 (case get_prop row (m_currentPrice fm) of Str s \<Rightarrow> s | _ \<Rightarrow> [])),
               userProductUrl =
                 (if truthy (get_prop row (m_userProductUrl fm))
                  then get_prop row (m_userProductUrl fm) else Str []),
               competitorUrls =
                 filter truthy (map (get_prop row) (m_competitorUrls fm))\<rparr>" for name
        using own by (auto simp: truthy_def)
    qed
  qed
  with a show "\<forall>u \<in> set (competitorUrls p). \<exists>s. u = Str s \<and> s \<noteq> []"
    by auto
qed

theorem validated_product_invariant_witness:
  "parseCsv competitor_csv = Inr (competitor_headers, [competitor_row]) \<and>
   reduce_rows
     \<lparr>m_productName = js ''productName'', m_currentPrice = js ''currentPrice'',
      m_userProductUrl = [], m_competitorUrls = [js ''competitorUrl_2'', js ''competitorUrl_1'']\<rparr>
     \<lparr>validProducts = [], errors = []\<rparr> 0 [competitor_row] =
     Inr \<lparr>validProducts =
            [\<lparr>productName = js ''Widget'', currentPrice = Val 5, userProductUrl = Str [],
              competitorUrls = [Str (js ''https://b.example''), Str (js ''https://a.example'')]\<rparr>],
          errors = []\<rparr> \<and>
   set [js ''competitorUrl_2'', js ''competitorUrl_1''] \<subseteq>
     set competitor_headers - {js ''__proto__''} \<and>
   trim (js ''Widget'') \<noteq> [] \<and> \<not> isNaN (Val 5) \<and>
   (\<exists>s. Str (js ''https://b.example'') = Str s \<and> s \<noteq> []) \<and>
   (\<exists>s. Str (js ''https://a.example'') = Str s \<and> s \<noteq> [])"
proof -
  let ?fm = "\<lparr>m_productName = js ''productName'', m_currentPrice = js ''currentPrice'',
    m_userProductUrl = [], m_competitorUrls = [js ''competitorUrl_2'', js ''competitorUrl_1'']\<rparr>"
  let ?p = "\<lparr>productName = js ''Widget'', currentPrice = Val 5, userProductUrl = Str [],
              competitorUrls = [Str (js ''https://b.example''), Str (js ''https://a.example'')]\<rparr>"
  let ?acc = "\<lparr>validProducts = [?p], errors = []\<rparr>"
  have 1: "get_prop competitor_row (m_productName ?fm) = Str (js ''Widget'')"
    by (simp add: competitor_row_get)
  have 2: "trim (js ''Widget'') \<noteq> []" by (simp add: trim_widget)
  have 3: "get_prop competitor_row (m_currentPrice ?fm) = Str (js ''5'') \<or>
      get_prop competitor_row (m_currentPrice ?fm) = Undefined \<and> js ''5'' = []"
    by (simp add: competitor_row_get)
  have step: "row_step ?fm \<lparr>validProducts = [], errors = []\<rparr> competitor_row 0 = Inr ?acc"
    unfolding row_step_named[OF 1 2 3]
    by (simp add: strip_price_5 parseFloat_5 competitor_row_get truthy_def)
  then have red: "reduce_rows ?fm \<lparr>validProducts = [], errors = []\<rparr> 0 [competitor_row] = Inr ?acc"
    by simp
  have sub: "set (m_competitorUrls ?fm) \<subseteq> set competitor_headers - {js ''__proto__''}"
    by (simp add: competitor_headers_def)
  have mem: "?p \<in> set (validProducts ?acc)" by simp
  have h1: "reduce_rows ?fm \<lparr>validProducts = [], errors = []\<rparr> 0 [competitor_row] = Inr ?acc \<and>
      ?p \<in> set (validProducts ?acc)"
    using red mem by blast
  have h2: "parseCsv competitor_csv = Inr (competitor_headers, [competitor_row]) \<and>
      set (m_competitorUrls ?fm) \<subseteq> set competitor_headers - {js ''__proto__''} \<and>
      reduce_rows ?fm \<lparr>validProducts = [], errors = []\<rparr> 0 [competitor_row] = Inr ?acc \<and>
      ?p \<in> set (validProducts ?acc)"
    using parseCsv_competitor_csv sub red mem by blast
  note t = validated_product_invariant[of ?fm "[competitor_row]" ?acc ?p competitor_csv
      competitor_headers]
  from t[THEN conjunct1, THEN mp, OF h1]
  have a: "trim (js ''Widget'') \<noteq> [] \<and> \<not> isNaN (Val 5)" by simp
  from t[THEN conjunct2, THEN mp, OF h2]
  have b: "(\<exists>s. Str (js ''https://b.example'') = Str s \<and> s \<noteq> []) \<and>
      (\<exists>s. Str (js ''https://a.example'') = Str s \<and> s \<noteq> [])" by simp
  from sub have sub': "set [js ''competitorUrl_2'', js ''competitorUrl_1''] \<subseteq>
     set competitor_headers - {js ''__proto__''}" by simp
  from parseCsv_competitor_csv red sub' a b show ?thesis by blast
qed

lemma csv_rows_proto:
  "csv_rows (js ''__proto__,currentPrice'' @ LF # js ''Widget,5'') =
     [js ''__proto__,currentPrice'', js ''Widget,5'']"
  by (simp add: csv_rows_def eval_defs)

text \<open>
  C8. Every row mapping is meant to have an entry for every header. On a file whose
  header row names a column \<open>__proto__\<close> the parse succeeds, but the row has no entry for
  that header: the assignment of the cell is ignored, and reading the header from the
  row gives an object inherited from \<open>Object.prototype\<close> instead of the cell.
\<close>

theorem parseCsv_proto_header_no_entry:
  "\<exists>r. parseCsv (js ''__proto__,currentPrice'' @ LF # js ''Widget,5'') =
         Inr ([js ''__proto__'', js ''currentPrice''], [r]) \<and>
       r (js ''__proto__'') = None \<and>
       get_prop r (js ''__proto__'') = Inherited \<and>
       r (js ''currentPrice'') = Some (js ''5'')"
proof -
  have h: "map trim (split_char COMMA (js ''__proto__,currentPrice'')) =
      [js ''__proto__'', js ''currentPrice'']"
    by (simp add: eval_defs)
  have v: "row_values (js ''Widget,5'') = [js ''Widget'', js ''5'']"
    by (simp add: row_values_def eval_defs)
  have p: "parseCsv (js ''__proto__,currentPrice'' @ LF # js ''Widget,5'') =
         Inr ([js ''__proto__'', js ''currentPrice''],
              [build_row Map.empty 0 [js ''__proto__'', js ''currentPrice'']
                 [js ''Widget'', js ''5'']])"
    by (simp add: parseCsv_def csv_rows_proto h v)
  show ?thesis
    unfolding p
    by (intro exI[of _ "build_row Map.empty 0 [js ''__proto__'', js ''currentPrice'']
          [js ''Widget'', js ''5'']"])
       (simp add: set_prop_def get_prop_def object_prototype_keys_def)
qed

end
